theory Spec2Isabelle
  imports Complex_Main "HOL-Library.Sublist"
begin

section \<open>Data model of the PS-RPC client (client.go)\<close>

text \<open>
  Affinities are Go \<open>float32\<close> values. The client never computes with them: it only
  compares them (\<open>>\<close>, \<open>>=\<close>, \<open><=\<close>, \<open>== 0\<close>). Every finite \<open>float32\<close> is a
  rational number and the comparisons of finite floats are the comparisons of those
  rationals, so an affinity is modelled as a \<open>rat\<close>. (The data model of the
  specification calls the affinity a non-negative real; NaN and the infinities are not
  covered.)
\<close>

type_synonym float32 = rat

text \<open>\<open>time.Duration\<close>: a signed count of nanoseconds.\<close>

type_synonym Duration = int

text \<open>
  The value an \<open>int64\<close> computation yields for the exact result \<open>x\<close>: \<open>int64\<close> arithmetic
  wraps around.
\<close>

definition int64 :: "int \<Rightarrow> int" where
  "int64 x = (x + 2 ^ 63) mod 2 ^ 64 - 2 ^ 63"

text \<open>
  Modelled from the spec: the error codes and \<open>NewError\<close> are declared outside client.go.
  The codes are those client.go names, the \<open>Canceled\<close> kind of the specification, and
  \<open>ServerCode\<close> for a code carried by a response envelope.
\<close>

datatype ErrorCode =
    Canceled
  | MalformedRequest
  | MalformedResponse
  | DeadlineExceeded
  | Unavailable
  | Internal
  | ServerCode string

text \<open>\<open>NewError(code, err)\<close>: an error value is its code and the message of \<open>err\<close>.\<close>

datatype Error = NewError ErrorCode string

fun Code :: "Error \<Rightarrow> ErrorCode" where
  "Code (NewError c m) = c"

definition ErrRequestTimedOut :: Error where
  "ErrRequestTimedOut = NewError DeadlineExceeded ''request timed out''"

definition ErrNoResponse :: Error where
  "ErrNoResponse = NewError Unavailable ''no response from servers''"

text \<open>The decimal rendering of a count, as the verb \<open>%d\<close> prints it.\<close>

definition digit_char :: "nat \<Rightarrow> char" where
  "digit_char d = ''0123456789'' ! d"

fun show_nat :: "nat \<Rightarrow> string" where
  "show_nat n = (if n < 10 then [digit_char n] else show_nat (n div 10) @ [digit_char (n mod 10)])"

declare show_nat.simps [simp del]

text \<open>\<open>NewErrorf(Unavailable, "no servers available (received %d responses)", claims)\<close>\<close>

definition ErrNoServers :: "nat \<Rightarrow> Error" where
  "ErrNoServers n =
     NewError Unavailable (''no servers available (received '' @ show_nat n @ '' responses)'')"

text \<open>
  \<open>internal.ClaimRequest\<close> and \<open>SelectionOpts\<close>, with the fields client.go reads.
\<close>

record ClaimRequest =
  RequestId :: string
  ServerId :: string
  Affinity :: float32

record SelectionOpts =
  AffinityTimeout :: Duration
  ShortCircuitTimeout :: Duration
  MinimumAffinity :: float32
  AcceptFirstAvailable :: bool

section \<open>The selection engine: \<open>selectServer\<close>\<close>

text \<open>
  Why a context is done. The client never reads the cause (it never calls \<open>ctx.Err()\<close>);
  the cause is kept in the events so that statements can speak about it.
\<close>

datatype done_cause = CallerCanceled | DeadlineFired | SelectionTimer

text \<open>
  What one iteration of the \<open>select\<close> in \<open>selectServer\<close> observes: a claim taken from
  \<open>claimChan\<close>, or \<open>ctx.Done()\<close>. The list of events is the order in which the
  \<open>select\<close> took them.
\<close>

datatype sel_event = EvClaim ClaimRequest | EvDone done_cause

text \<open>The local variables of \<open>selectServer\<close>, and the timers it has armed so far.\<close>

record sel_state =
  serverID :: string
  best :: float32
  shorted :: bool
  claims :: nat
  armed :: "Duration list"

text \<open>The condition of the \<open>if\<close> at lines 224-225.\<close>

definition is_candidate :: "SelectionOpts \<Rightarrow> float32 \<Rightarrow> ClaimRequest \<Rightarrow> bool" where
  "is_candidate opts b claim =
     ((MinimumAffinity opts > 0 \<and> Affinity claim \<ge> MinimumAffinity opts \<and> Affinity claim > b) \<or>
      (MinimumAffinity opts \<le> 0 \<and> Affinity claim > b))"

text \<open>
  The \<open>for { select { ... } }\<close> loop. \<open>None\<close>: the events are used up and the loop is
  still waiting.
\<close>

fun selectLoop :: "SelectionOpts \<Rightarrow> sel_state \<Rightarrow> sel_event list \<Rightarrow> ((Error + string) \<times> sel_state) option" where
  "selectLoop opts s [] = None"
| "selectLoop opts s (EvDone cause # es) =
     (if best s = 0 then
        (if claims s = 0 then Some (Inl ErrNoResponse, s)
         else Some (Inl (ErrNoServers (claims s)), s))
      else Some (Inr (serverID s), s))"
| "selectLoop opts s (EvClaim claim # es) =
     (let s1 = s\<lparr>claims := claims s + 1\<rparr> in
      if is_candidate opts (best s1) claim then
        (if AcceptFirstAvailable opts then Some (Inr (ServerId claim), s1)
         else
           (let s2 = s1\<lparr>serverID := ServerId claim, best := Affinity claim\<rparr>;
                s3 = (if ShortCircuitTimeout opts > 0 \<and> \<not> shorted s2
                      then s2\<lparr>shorted := True, armed := armed s2 @ [ShortCircuitTimeout opts]\<rparr>
                      else s2)
            in selectLoop opts s3 es))
      else selectLoop opts s1 es)"

definition sel_init :: "SelectionOpts \<Rightarrow> sel_state" where
  "sel_init opts =
     \<lparr>serverID = '''', best = 0, shorted = False, claims = 0,
      armed = (if AffinityTimeout opts > 0 then [AffinityTimeout opts] else [])\<rparr>"

definition selectServer :: "SelectionOpts \<Rightarrow> sel_event list \<Rightarrow> (Error + string) option" where
  "selectServer opts es = map_option fst (selectLoop opts (sel_init opts) es)"

text \<open>
  The claims the statements below call qualifying: a claim meets the floor when
  \<open>minimum-affinity\<close> is not positive or its affinity is at least
  \<open>minimum-affinity\<close>; it qualifies when, besides, its affinity is positive.
\<close>

definition meets_floor :: "SelectionOpts \<Rightarrow> ClaimRequest \<Rightarrow> bool" where
  "meets_floor opts claim =
     (if MinimumAffinity opts > 0 then Affinity claim \<ge> MinimumAffinity opts else True)"

definition qualifies :: "SelectionOpts \<Rightarrow> ClaimRequest \<Rightarrow> bool" where
  "qualifies opts claim = (Affinity claim > 0 \<and> meets_floor opts claim)"

section \<open>Envelopes, the bus and the codec\<close>

text \<open>\<open>anypb.Any\<close>: the schema-tagged payload container.\<close>

record AnyPb =
  TypeUrl :: string
  Value :: string

text \<open>
  \<open>internal.Request\<close>, \<open>internal.ClaimResponse\<close> and \<open>internal.Response\<close>, with the fields
  client.go writes and reads. A timestamp is the \<open>int64\<close> count of nanoseconds that
  \<open>UnixNano\<close> returns.
\<close>

record Request =
  req_RequestId :: string
  req_ClientId :: string
  req_SentAt :: int
  req_Expiry :: int
  req_Multi :: bool
  req_Request :: AnyPb

record ClaimResponse =
  cr_RequestId :: string
  cr_ServerId :: string

record Response =
  res_RequestId :: string
  res_Error :: string
  res_Code :: string
  res_Response :: "AnyPb option"

record RPCInfo =
  Method :: string
  Topic :: string

text \<open>
  The channel names \<open>getRPCChannel(service, rpc, topic)\<close>, \<open>getClaimResponseChannel\<close>,
  \<open>getResponseChannel\<close> and \<open>getClaimRequestChannel\<close>: their derivation is not in
  client.go, so a name is the function applied to its arguments.
\<close>

datatype channel =
    getRPCChannel string string string
  | getClaimResponseChannel string string string
  | getResponseChannel string string
  | getClaimRequestChannel string string

datatype bus_message = MsgRequest Request | MsgClaimResponse ClaimResponse

text \<open>
  The protobuf library, taken as a parameter: \<open>anypb.New\<close> (an error text or the
  container), \<open>(*Any).UnmarshalNew\<close> on a possibly nil container (an error text or a
  message of the type the container names). A message is a value of \<open>'m\<close>.
\<close>

record 'm codec =
  anypb_New :: "'m \<Rightarrow> string + AnyPb"
  UnmarshalNew :: "AnyPb option \<Rightarrow> string + 'm"

text \<open>
  Modelled from the spec: \<open>newErrorFromResponse(code, message)\<close> is not in client.go;
  the specification says the server-reported error is reconstructed into a typed error
  preserving the code.
\<close>

definition newErrorFromResponse :: "string \<Rightarrow> string \<Rightarrow> Error" where
  "newErrorFromResponse code m = NewError (ServerCode code) m"

text \<open>
  What the program does to the outside, in order: the hook calls (a hook is known by an
  identifier; the context argument is left out) and the calls of \<open>bus.Publish\<close> with
  their outcome.
\<close>

datatype 'm effect =
    RequestHook nat 'm RPCInfo
  | ResponseHook nat 'm RPCInfo "'m option" "Error option"
  | Published channel bus_message
  | PublishFailed channel bus_message string

fun is_ResponseHook :: "'m effect \<Rightarrow> bool" where
  "is_ResponseHook (ResponseHook h m i r e) = True"
| "is_ResponseHook _ = False"

fun is_Publish :: "'m effect \<Rightarrow> bool" where
  "is_Publish (Published ch m) = True"
| "is_Publish (PublishFailed ch m e) = True"
| "is_Publish _ = False"

section \<open>The client and its correlation table\<close>

text \<open>A buffered Go channel: its capacity and the values queued in it.\<close>

record 'a chan =
  cap :: nat
  buf :: "'a list"

type_synonym addr = nat

text \<open>
  \<open>RPCClient\<close>. The two maps hold references to channels, so a map value is the address
  of a channel object. The last three fields are not fields of the Go struct: they are
  the channel objects the program has made (\<open>make(chan ..., n)\<close>), by address, and the
  next free address. An object stays in memory when its map entry is deleted.
\<close>

record RPCClient =
  channelSize :: nat
  requestHooks :: "nat list"
  responseHooks :: "nat list"
  serviceName :: string
  id' :: string
  claimRequests :: "string \<rightharpoonup> addr"
  responseChannels :: "string \<rightharpoonup> addr"
  closed' :: bool
  claimChans :: "addr \<rightharpoonup> ClaimRequest chan"
  resChans :: "addr \<rightharpoonup> Response chan"
  next_addr :: addr

text \<open>\<open>make(chan *internal.ClaimRequest, n)\<close> and \<open>make(chan *internal.Response, n)\<close>.\<close>

definition make_claimChan :: "nat \<Rightarrow> RPCClient \<Rightarrow> addr \<times> RPCClient" where
  "make_claimChan n c =
     (next_addr c,
      c\<lparr>claimChans := (claimChans c)(next_addr c \<mapsto> \<lparr>cap = n, buf = []\<rparr>),
        next_addr := next_addr c + 1\<rparr>)"

definition make_resChan :: "nat \<Rightarrow> RPCClient \<Rightarrow> addr \<times> RPCClient" where
  "make_resChan n c =
     (next_addr c,
      c\<lparr>resChans := (resChans c)(next_addr c \<mapsto> \<lparr>cap = n, buf = []\<rparr>),
        next_addr := next_addr c + 1\<rparr>)"

text \<open>\<open>Close\<close>: closing the \<open>closed\<close> channel once.\<close>

definition Close :: "RPCClient \<Rightarrow> RPCClient" where
  "Close c = (if closed' c then c else c\<lparr>closed' := True\<rparr>)"

text \<open>The resolved options of a call, \<open>o := getRequestOpts(c.clientOpts, opts...)\<close>.\<close>

record RequestOpts =
  timeout :: Duration
  selectionOpts :: SelectionOpts

section \<open>Decoding a response envelope (lines 178-188 and 306-315)\<close>

text \<open>
  Both drivers turn a response envelope into a result and an error in the same way. The
  type assertion \<open>r.(ResponseType)\<close> has the one-value form: it panics when the decoded
  message is not of the type parameter. The type parameter is the predicate \<open>rt\<close>.
\<close>

datatype 'm decoded = Decoded "'m option" "Error option" | TypeAssertionPanic

definition decode_response :: "'m codec \<Rightarrow> ('m \<Rightarrow> bool) \<Rightarrow> Response \<Rightarrow> 'm decoded" where
  "decode_response cd rt res =
     (if res_Error res \<noteq> '''' then
        Decoded None (Some (newErrorFromResponse (res_Code res) (res_Error res)))
      else
        (case UnmarshalNew cd (res_Response res) of
           Inl e \<Rightarrow> Decoded None (Some (NewError MalformedResponse e))
         | Inr r \<Rightarrow> if rt r then Decoded (Some r) None else TypeAssertionPanic))"

section \<open>The unary driver: \<open>RequestSingle\<close>\<close>

text \<open>
  What the surroundings do during one call: the identifier \<open>newRequestID()\<close> returns,
  the clock (\<open>time_Now\<close> is the value of \<open>now.UnixNano()\<close>; \<open>now.Add(o.timeout).UnixNano()\<close>
  is the \<open>int64\<close> sum, which wraps around for a large timeout), the outcome of the two \<open>Publish\<close> calls (an error text or none), what the
  \<open>select\<close> of \<open>selectServer\<close> observes, and what the last \<open>select\<close> observes: a
  response on \<open>resChan\<close> or \<open>ctx.Done()\<close>.
\<close>

datatype await_event = GotResponse Response | CtxDone done_cause

record call_env =
  newRequestID :: string
  time_Now :: int
  publish_request :: "string option"
  select_events :: "sel_event list"
  publish_claim :: "string option"
  await :: await_event

text \<open>
  How a call ends: the named results \<open>response\<close> and \<open>err\<close> as the deferred functions
  see them, and whether the call ends in a panic instead of returning them.
\<close>

record 'm outcome =
  response :: "'m option"
  err :: "Error option"
  panicked :: bool

definition returns :: "'m option \<Rightarrow> Error option \<Rightarrow> 'm outcome" where
  "returns r e = \<lparr>response = r, err = e, panicked = False\<rparr>"

definition fails :: "Error \<Rightarrow> 'm outcome" where
  "fails e = \<lparr>response = None, err = Some e, panicked = False\<rparr>"

text \<open>The deferred function of lines 149-154.\<close>

definition unregister :: "string \<Rightarrow> RPCClient \<Rightarrow> RPCClient" where
  "unregister requestID c =
     c\<lparr>claimRequests := (claimRequests c)(requestID := None),
       responseChannels := (responseChannels c)(requestID := None)\<rparr>"

text \<open>The deferred function of lines 113-117.\<close>

definition response_hooks :: "RPCClient \<Rightarrow> 'm \<Rightarrow> RPCInfo \<Rightarrow> 'm option \<Rightarrow> Error option \<Rightarrow> 'm effect list" where
  "response_hooks c request info r e = map (\<lambda>hook. ResponseHook hook request info r e) (responseHooks c)"

definition request_hooks :: "RPCClient \<Rightarrow> 'm \<Rightarrow> RPCInfo \<Rightarrow> 'm effect list" where
  "request_hooks c request info = map (\<lambda>hook. RequestHook hook request info) (requestHooks c)"

text \<open>
  Lines 156-194, after both sinks are registered: the effects and how the call ends.
  \<open>None\<close>: \<open>selectServer\<close> is still waiting when the events are used up.
\<close>

definition RequestSingle_exchange ::
  "'m codec \<Rightarrow> ('m \<Rightarrow> bool) \<Rightarrow> RPCClient \<Rightarrow> string \<Rightarrow> string \<Rightarrow> Request \<Rightarrow> RequestOpts \<Rightarrow>
   call_env \<Rightarrow> ('m effect list \<times> 'm outcome) option" where
  "RequestSingle_exchange cd rt c rpc topic req ro env =
     (case publish_request env of
        Some e \<Rightarrow>
          Some ([PublishFailed (getRPCChannel (serviceName c) rpc topic) (MsgRequest req) e],
                fails (NewError Internal e))
      | None \<Rightarrow>
          (let sent = [Published (getRPCChannel (serviceName c) rpc topic) (MsgRequest req)] in
           case selectServer (selectionOpts ro) (select_events env) of
             None \<Rightarrow> None
           | Some (Inl e) \<Rightarrow> Some (sent, fails e)
           | Some (Inr sid) \<Rightarrow>
               (let cr = MsgClaimResponse \<lparr>cr_RequestId = req_RequestId req, cr_ServerId = sid\<rparr>;
                    ch = getClaimResponseChannel (serviceName c) rpc topic
                in case publish_claim env of
                     Some e \<Rightarrow> Some (sent @ [PublishFailed ch cr e], fails (NewError Internal e))
                   | None \<Rightarrow>
                       (case await env of
                          GotResponse res \<Rightarrow>
                            (case decode_response cd rt res of
                               Decoded r e \<Rightarrow> Some (sent @ [Published ch cr], returns r e)
                             | TypeAssertionPanic \<Rightarrow>
                                 Some (sent @ [Published ch cr],
                                       \<lparr>response = None, err = None, panicked = True\<rparr>))
                        | CtxDone cause \<Rightarrow>
                            Some (sent @ [Published ch cr], fails ErrRequestTimedOut)))))"

text \<open>
  \<open>RequestSingle\<close>: the client after the call, the effects in order, and how the call
  ends. The deferred functions run last, in the reverse order of their \<open>defer\<close>
  statements, also when the call panics: first the table entries are deleted, then the
  response hooks are called with the named results.
\<close>

definition RequestSingle ::
  "'m codec \<Rightarrow> ('m \<Rightarrow> bool) \<Rightarrow> RPCClient \<Rightarrow> string \<Rightarrow> string \<Rightarrow> 'm \<Rightarrow> RequestOpts \<Rightarrow>
   call_env \<Rightarrow> (RPCClient \<times> 'm effect list \<times> 'm outcome) option" where
  "RequestSingle cd rt c rpc topic request ro env =
     (let info = \<lparr>Method = rpc, Topic = topic\<rparr>;
          hooked = request_hooks c request info
      in case anypb_New cd request of
           Inl e \<Rightarrow>
             (let out = fails (NewError MalformedRequest e)
              in Some (c, hooked @ response_hooks c request info (response out) (err out), out))
         | Inr v \<Rightarrow>
             (let requestID = newRequestID env;
                  now = time_Now env;
                  req = \<lparr>req_RequestId = requestID, req_ClientId = id' c, req_SentAt = now,
                         req_Expiry = int64 (now + timeout ro), req_Multi = False, req_Request = v\<rparr>;
                  (claimChan, c1) = make_claimChan (channelSize c) c;
                  (resChan, c2) = make_resChan 1 c1;
                  c3 = c2\<lparr>claimRequests := (claimRequests c2)(requestID \<mapsto> claimChan),
                          responseChannels := (responseChannels c2)(requestID \<mapsto> resChan)\<rparr>
              in case RequestSingle_exchange cd rt c3 rpc topic req ro env of
                   None \<Rightarrow> None
                 | Some (effs, out) \<Rightarrow>
                     (let c4 = unregister requestID c3
                      in Some (c4,
                               hooked @ effs @ response_hooks c4 request info (response out) (err out),
                               out))))"

section \<open>The fan-out driver: \<open>RequestMulti\<close>\<close>

text \<open>\<open>Response[ResponseType]\<close>, the element of the caller-visible channel.\<close>

record 'm TypedResponse =
  Result :: "'m option"
  Err :: "Error option"

text \<open>
  Where the goroutine of lines 300-331 stands: at its \<open>select\<close>, at the send
  \<open>responseChannel <- r\<close> (which waits while the channel is full), between the
  \<open>delete\<close> and the \<open>close\<close>, after its \<open>return\<close>, or dead by the panic of the
  type assertion.
\<close>

datatype 'm drainer_pc = AtSelect | Sending "'m TypedResponse" | Closing | Exited | Crashed

text \<open>
  The goroutine: the variables it closes over, its timer, and the channel
  \<open>responseChannel\<close> with its closed flag. \<open>taken\<close> and \<open>forwarded\<close> are not in the
  program: they list every envelope the goroutine has received from \<open>resChan\<close> and every
  value it has sent on \<open>responseChannel\<close> so far.
\<close>

record 'm drainer =
  dr_requestID :: string
  dr_request :: 'm
  dr_info :: RPCInfo
  dr_resChan :: addr
  dr_pc :: "'m drainer_pc"
  timer_fired :: bool
  responseChannel :: "'m TypedResponse chan"
  responseChannel_closed :: bool
  taken :: "Response list"
  forwarded :: "'m TypedResponse list"

text \<open>
  How \<open>RequestMulti\<close> ends: whether it returns \<open>responseChannel\<close> (or a nil channel),
  its error, and the goroutine it has started, if any.
\<close>

record 'm multi_outcome =
  rChan :: bool
  m_err :: "Error option"
  started :: "'m drainer option"

text \<open>
  \<open>RequestMulti\<close>. Of the surroundings only \<open>newRequestID\<close>, \<open>time_Now\<close> and
  \<open>publish_request\<close> are used. The deferred function of lines 263-269 calls the response
  hooks when \<open>err\<close> is not nil.
\<close>

definition RequestMulti ::
  "'m codec \<Rightarrow> RPCClient \<Rightarrow> string \<Rightarrow> string \<Rightarrow> 'm \<Rightarrow> RequestOpts \<Rightarrow> call_env \<Rightarrow>
   RPCClient \<times> 'm effect list \<times> 'm multi_outcome" where
  "RequestMulti cd c rpc topic request ro env =
     (let info = \<lparr>Method = rpc, Topic = topic\<rparr>;
          hooked = request_hooks c request info
      in case anypb_New cd request of
           Inl e \<Rightarrow>
             (let er = NewError MalformedRequest e
              in (c, hooked @ response_hooks c request info None (Some er),
                  \<lparr>rChan = False, m_err = Some er, started = None\<rparr>))
         | Inr v \<Rightarrow>
             (let requestID = newRequestID env;
                  now = time_Now env;
                  req = \<lparr>req_RequestId = requestID, req_ClientId = id' c, req_SentAt = now,
                         req_Expiry = int64 (now + timeout ro), req_Multi = True, req_Request = v\<rparr>;
                  (resChan, c1) = make_resChan (channelSize c) c;
                  c2 = c1\<lparr>responseChannels := (responseChannels c1)(requestID \<mapsto> resChan)\<rparr>;
                  d = \<lparr>dr_requestID = requestID, dr_request = request, dr_info = info,
                       dr_resChan = resChan, dr_pc = AtSelect, timer_fired = False,
                       responseChannel = \<lparr>cap = channelSize c, buf = []\<rparr>,
                       responseChannel_closed = False, taken = [], forwarded = []\<rparr>;
                  ch = getRPCChannel (serviceName c) rpc topic
              in case publish_request env of
                   Some e \<Rightarrow>
                     (let er = NewError Internal e
                      in (c2,
                          hooked @ [PublishFailed ch (MsgRequest req) e] @
                            response_hooks c2 request info None (Some er),
                          \<lparr>rChan = False, m_err = Some er, started = Some d\<rparr>))
                 | None \<Rightarrow>
                     (c2, hooked @ [Published ch (MsgRequest req)],
                      \<lparr>rChan = True, m_err = None, started = Some d\<rparr>)))"

text \<open>
  The goroutine runs beside the demultiplexer and the caller. A state of the three is the
  client, the goroutine and the hook calls made so far; a step is one of:
  \<^item> \<open>Deliver res\<close>: the demultiplexer puts \<open>res\<close> into the sink registered for its
    request id (an envelope with no sink is discarded; the step cannot be taken
    while the sink is full);
  \<^item> \<open>Rendezvous res\<close>: the sink has no buffer and the goroutine, at its \<open>select\<close>, takes
    \<open>res\<close> from the demultiplexer directly;
  \<^item> \<open>TimerFires\<close>: \<open>timer.C\<close> becomes ready;
  \<^item> \<open>TakeResponse\<close>: the \<open>select\<close> takes the case \<open>res := <-resChan\<close>, decodes, calls
    the response hooks and reaches the send;
  \<^item> \<open>CompleteSend\<close>: the send \<open>responseChannel <- r\<close> completes;
  \<^item> \<open>TakeTimer\<close>: the \<open>select\<close> takes the case \<open><-timer.C\<close> and deletes the entry;
  \<^item> \<open>CloseStream\<close>: \<open>close(responseChannel)\<close> and \<open>return\<close>;
  \<^item> \<open>CallerReceive\<close>: the caller receives from \<open>responseChannel\<close>.
  \<open>None\<close>: the step cannot be taken in this state.
\<close>

datatype multi_action =
    Deliver Response
  | Rendezvous Response
  | TimerFires
  | TakeResponse
  | CompleteSend
  | TakeTimer
  | CloseStream
  | CallerReceive

record 'm multi_sys =
  ms_client :: RPCClient
  ms_drainer :: "'m drainer"
  ms_effects :: "'m effect list"

text \<open>The body of the case \<open>res := <-resChan\<close> up to the send (lines 305-321).\<close>

definition drainer_handle :: "'m codec \<Rightarrow> ('m \<Rightarrow> bool) \<Rightarrow> Response \<Rightarrow> 'm multi_sys \<Rightarrow> 'm multi_sys" where
  "drainer_handle cd rt res s =
     (let d = (ms_drainer s)\<lparr>taken := taken (ms_drainer s) @ [res]\<rparr> in
      case decode_response cd rt res of
        TypeAssertionPanic \<Rightarrow> s\<lparr>ms_drainer := d\<lparr>dr_pc := Crashed\<rparr>\<rparr>
      | Decoded r e \<Rightarrow>
          s\<lparr>ms_drainer := d\<lparr>dr_pc := Sending \<lparr>Result = r, Err = e\<rparr>\<rparr>,
            ms_effects := ms_effects s @ response_hooks (ms_client s) (dr_request d) (dr_info d) r e\<rparr>)"

fun multi_step :: "'m codec \<Rightarrow> ('m \<Rightarrow> bool) \<Rightarrow> multi_action \<Rightarrow> 'm multi_sys \<Rightarrow> 'm multi_sys option" where
  "multi_step cd rt (Deliver res) s =
     (let c = ms_client s in
      case responseChannels c (res_RequestId res) of
        None \<Rightarrow> Some s
      | Some a \<Rightarrow>
          (case resChans c a of
             None \<Rightarrow> None
           | Some ch \<Rightarrow>
               if length (buf ch) < cap ch
               then Some (s\<lparr>ms_client := c\<lparr>resChans := (resChans c)(a \<mapsto> ch\<lparr>buf := buf ch @ [res]\<rparr>)\<rparr>\<rparr>)
               else None))"
| "multi_step cd rt (Rendezvous res) s =
     (let c = ms_client s; d = ms_drainer s in
      case resChans c (dr_resChan d) of
        None \<Rightarrow> None
      | Some ch \<Rightarrow>
          if dr_pc d = AtSelect \<and> cap ch = 0 \<and>
             responseChannels c (res_RequestId res) = Some (dr_resChan d)
          then Some (drainer_handle cd rt res s)
          else None)"
| "multi_step cd rt TimerFires s =
     Some (s\<lparr>ms_drainer := (ms_drainer s)\<lparr>timer_fired := True\<rparr>\<rparr>)"
| "multi_step cd rt TakeResponse s =
     (let c = ms_client s; d = ms_drainer s in
      case resChans c (dr_resChan d) of
        None \<Rightarrow> None
      | Some ch \<Rightarrow>
          (case buf ch of
             [] \<Rightarrow> None
           | res # rest \<Rightarrow>
               if dr_pc d = AtSelect
               then Some (drainer_handle cd rt res
                            (s\<lparr>ms_client := c\<lparr>resChans := (resChans c)(dr_resChan d \<mapsto> ch\<lparr>buf := rest\<rparr>)\<rparr>\<rparr>))
               else None))"
| "multi_step cd rt CompleteSend s =
     (let d = ms_drainer s; rc = responseChannel d in
      case dr_pc d of
        Sending r \<Rightarrow>
          if length (buf rc) < cap rc
          then Some (s\<lparr>ms_drainer := d\<lparr>dr_pc := AtSelect,
                                        responseChannel := rc\<lparr>buf := buf rc @ [r]\<rparr>,
                                        forwarded := forwarded d @ [r]\<rparr>\<rparr>)
          else None
      | _ \<Rightarrow> None)"
| "multi_step cd rt TakeTimer s =
     (let c = ms_client s; d = ms_drainer s in
      if dr_pc d = AtSelect \<and> timer_fired d
      then Some (s\<lparr>ms_client := c\<lparr>responseChannels := (responseChannels c)(dr_requestID d := None)\<rparr>,
                    ms_drainer := d\<lparr>dr_pc := Closing, timer_fired := False\<rparr>\<rparr>)
      else None)"
| "multi_step cd rt CloseStream s =
     (let d = ms_drainer s in
      if dr_pc d = Closing
      then Some (s\<lparr>ms_drainer := d\<lparr>dr_pc := Exited, responseChannel_closed := True\<rparr>\<rparr>)
      else None)"
| "multi_step cd rt CallerReceive s =
     (let d = ms_drainer s; rc = responseChannel d in
      case buf rc of
        x # rest \<Rightarrow> Some (s\<lparr>ms_drainer := d\<lparr>responseChannel := rc\<lparr>buf := rest\<rparr>\<rparr>\<rparr>)
      | [] \<Rightarrow>
          (case dr_pc d of
             Sending r \<Rightarrow>
               if cap rc = 0
               then Some (s\<lparr>ms_drainer := d\<lparr>dr_pc := AtSelect, forwarded := forwarded d @ [r]\<rparr>\<rparr>)
               else None
           | _ \<Rightarrow> None))"

text \<open>A run: the steps of a list taken in order, \<open>None\<close> as soon as one cannot be taken.\<close>

fun run :: "('a \<Rightarrow> 's \<Rightarrow> 's option) \<Rightarrow> 'a list \<Rightarrow> 's \<Rightarrow> 's option" where
  "run step [] s = Some s"
| "run step (a # as) s = (case step a s of None \<Rightarrow> None | Some s' \<Rightarrow> run step as s')"

text \<open>The state in which a call of \<open>RequestMulti\<close> leaves the three, when it started the goroutine.\<close>

definition multi_start ::
  "'m codec \<Rightarrow> RPCClient \<Rightarrow> string \<Rightarrow> string \<Rightarrow> 'm \<Rightarrow> RequestOpts \<Rightarrow> call_env \<Rightarrow> 'm multi_sys option" where
  "multi_start cd c rpc topic request ro env =
     (case RequestMulti cd c rpc topic request ro env of
        (c', effs, out) \<Rightarrow>
          (case started out of
             None \<Rightarrow> None
           | Some d \<Rightarrow> Some \<lparr>ms_client = c', ms_drainer = d, ms_effects = effs\<rparr>))"

section \<open>The demultiplexer (lines 47-72)\<close>

text \<open>
  Where the goroutine stands: at its \<open>select\<close>, at one of the sends \<open>claimChan <- claim\<close>
  and \<open>resChan <- res\<close> (the channel it has looked up, by address, and the envelope), or
  after its \<open>return\<close>. The lock is held for the map lookup only, which does not wait on
  a channel; it is not part of the state.
\<close>

datatype demux_pc =
    DSelect
  | DSendClaim addr ClaimRequest
  | DSendRes addr Response
  | DStopped

record demux_sys =
  dm_client :: RPCClient
  dm_pc :: demux_pc

text \<open>
  The steps of the demultiplexer and of the goroutines around it:
  \<^item> \<open>SelClosed\<close>, \<open>SelClaim claim\<close>, \<open>SelRes res\<close>: the \<open>select\<close> takes that case; the send
    of the case completes at once when the channel has room;
  \<^item> \<open>FinishSend\<close>: a send that was waiting completes;
  \<^item> \<open>RecvClaim a\<close>, \<open>RecvRes a\<close>: some goroutine receives from the channel at \<open>a\<close>;
  \<^item> \<open>Unregister requestID\<close>: a driver deletes its entries.
\<close>

datatype demux_action =
    SelClosed
  | SelClaim ClaimRequest
  | SelRes Response
  | FinishSend
  | RecvClaim addr
  | RecvRes addr
  | Unregister string

fun demux_step :: "demux_action \<Rightarrow> demux_sys \<Rightarrow> demux_sys option" where
  "demux_step SelClosed s =
     (if dm_pc s = DSelect \<and> closed' (dm_client s) then Some (s\<lparr>dm_pc := DStopped\<rparr>) else None)"
| "demux_step (SelClaim claim) s =
     (let c = dm_client s in
      if dm_pc s \<noteq> DSelect then None
      else
        (case claimRequests c (RequestId claim) of
           None \<Rightarrow> Some s
         | Some a \<Rightarrow>
             (case claimChans c a of
                None \<Rightarrow> None
              | Some ch \<Rightarrow>
                  if length (buf ch) < cap ch
                  then Some (s\<lparr>dm_client := c\<lparr>claimChans := (claimChans c)(a \<mapsto> ch\<lparr>buf := buf ch @ [claim]\<rparr>)\<rparr>\<rparr>)
                  else Some (s\<lparr>dm_pc := DSendClaim a claim\<rparr>))))"
| "demux_step (SelRes res) s =
     (let c = dm_client s in
      if dm_pc s \<noteq> DSelect then None
      else
        (case responseChannels c (res_RequestId res) of
           None \<Rightarrow> Some s
         | Some a \<Rightarrow>
             (case resChans c a of
                None \<Rightarrow> None
              | Some ch \<Rightarrow>
                  if length (buf ch) < cap ch
                  then Some (s\<lparr>dm_client := c\<lparr>resChans := (resChans c)(a \<mapsto> ch\<lparr>buf := buf ch @ [res]\<rparr>)\<rparr>\<rparr>)
                  else Some (s\<lparr>dm_pc := DSendRes a res\<rparr>))))"
| "demux_step FinishSend s =
     (let c = dm_client s in
      case dm_pc s of
        DSendClaim a claim \<Rightarrow>
          (case claimChans c a of
             None \<Rightarrow> None
           | Some ch \<Rightarrow>
               if length (buf ch) < cap ch
               then Some \<lparr>dm_client = c\<lparr>claimChans := (claimChans c)(a \<mapsto> ch\<lparr>buf := buf ch @ [claim]\<rparr>)\<rparr>,
                          dm_pc = DSelect\<rparr>
               else None)
      | DSendRes a res \<Rightarrow>
          (case resChans c a of
             None \<Rightarrow> None
           | Some ch \<Rightarrow>
               if length (buf ch) < cap ch
               then Some \<lparr>dm_client = c\<lparr>resChans := (resChans c)(a \<mapsto> ch\<lparr>buf := buf ch @ [res]\<rparr>)\<rparr>,
                          dm_pc = DSelect\<rparr>
               else None)
      | _ \<Rightarrow> None)"
| "demux_step (RecvClaim a) s =
     (let c = dm_client s in
      case claimChans c a of
        None \<Rightarrow> None
      | Some ch \<Rightarrow>
          (case buf ch of
             x # rest \<Rightarrow> Some (s\<lparr>dm_client := c\<lparr>claimChans := (claimChans c)(a \<mapsto> ch\<lparr>buf := rest\<rparr>)\<rparr>\<rparr>)
           | [] \<Rightarrow>
               (case dm_pc s of
                  DSendClaim b claim \<Rightarrow> if b = a then Some (s\<lparr>dm_pc := DSelect\<rparr>) else None
                | _ \<Rightarrow> None)))"
| "demux_step (RecvRes a) s =
     (let c = dm_client s in
      case resChans c a of
        None \<Rightarrow> None
      | Some ch \<Rightarrow>
          (case buf ch of
             x # rest \<Rightarrow> Some (s\<lparr>dm_client := c\<lparr>resChans := (resChans c)(a \<mapsto> ch\<lparr>buf := rest\<rparr>)\<rparr>\<rparr>)
           | [] \<Rightarrow>
               (case dm_pc s of
                  DSendRes b res \<Rightarrow> if b = a then Some (s\<lparr>dm_pc := DSelect\<rparr>) else None
                | _ \<Rightarrow> None)))"
| "demux_step (Unregister requestID) s =
     Some (s\<lparr>dm_client := unregister requestID (dm_client s)\<rparr>)"

section \<open>Notions used in the statements\<close>

text \<open>The value the goroutine of \<open>RequestMulti\<close> is about to send, if it stands at the send.\<close>

definition pending :: "'m drainer \<Rightarrow> 'm TypedResponse list" where
  "pending d = (case dr_pc d of Sending r \<Rightarrow> [r] | _ \<Rightarrow> [])"

text \<open>
  The response hook calls the code makes for the envelopes \<open>ress\<close>, in order: for an
  envelope that is converted, one call of every response hook of the client with the
  result and the error; for one at which the type assertion panics, none.
\<close>

definition hooks_of_taken ::
  "'m codec \<Rightarrow> ('m \<Rightarrow> bool) \<Rightarrow> RPCClient \<Rightarrow> 'm drainer \<Rightarrow> Response list \<Rightarrow> 'm effect list" where
  "hooks_of_taken cd rt c d ress =
     concat (map (\<lambda>res. case decode_response cd rt res of
                           Decoded r e \<Rightarrow> response_hooks c (dr_request d) (dr_info d) r e
                         | TypeAssertionPanic \<Rightarrow> []) ress)"

text \<open>One call of every response hook of the client for each of the typed responses \<open>rs\<close>, in order.\<close>

definition hooks_for :: "RPCClient \<Rightarrow> 'm drainer \<Rightarrow> 'm TypedResponse list \<Rightarrow> 'm effect list" where
  "hooks_for c d rs =
     concat (map (\<lambda>r. response_hooks c (dr_request d) (dr_info d) (Result r) (Err r)) rs)"


text \<open>
  Between two states nothing was put into any channel: every channel object is still
  there with its capacity, and holds a final part of what it held.
\<close>

definition only_received :: "RPCClient \<Rightarrow> RPCClient \<Rightarrow> bool" where
  "only_received c c' =
     ((\<forall>a. rel_option (\<lambda>ch ch'. cap ch' = cap ch \<and> suffix (buf ch') (buf ch))
              (claimChans c a) (claimChans c' a)) \<and>
      (\<forall>a. rel_option (\<lambda>ch ch'. cap ch' = cap ch \<and> suffix (buf ch') (buf ch))
              (resChans c a) (resChans c' a)))"

section \<open>Example inputs\<close>

text \<open>
  Inputs for the concrete runs below. An example message is a pair of its type name and
  its content; the example codec fails to encode a message with no type name and to
  decode a missing container or one with an empty type URL.
\<close>

type_synonym ex_msg = "string \<times> string"

definition ex_codec :: "ex_msg codec" where
  "ex_codec =
     \<lparr>anypb_New = (\<lambda>m. if fst m = '''' then Inl ''invalid nil source message''
                        else Inr \<lparr>TypeUrl = fst m, Value = snd m\<rparr>),
      UnmarshalNew = (\<lambda>a. case a of
                             None \<Rightarrow> Inl ''invalid empty type URL''
                           | Some x \<Rightarrow> if TypeUrl x = '''' then Inl ''invalid empty type URL''
                                       else Inr (TypeUrl x, Value x))\<rparr>"

definition ex_rt :: "ex_msg \<Rightarrow> bool" where
  "ex_rt m = (fst m = ''Pong'')"

definition ex_claim :: "string \<Rightarrow> float32 \<Rightarrow> ClaimRequest" where
  "ex_claim sid a = \<lparr>RequestId = ''r1'', ServerId = sid, Affinity = a\<rparr>"

definition ex_opts :: "float32 \<Rightarrow> bool \<Rightarrow> SelectionOpts" where
  "ex_opts m a =
     \<lparr>AffinityTimeout = 0, ShortCircuitTimeout = 0, MinimumAffinity = m, AcceptFirstAvailable = a\<rparr>"

definition ex_ro :: RequestOpts where
  "ex_ro = \<lparr>timeout = 1000000000, selectionOpts = ex_opts 0 False\<rparr>"

definition ex_client :: RPCClient where
  "ex_client =
     \<lparr>channelSize = 1, requestHooks = [7], responseHooks = [8, 9], serviceName = ''svc'',
      id' = ''client1'', claimRequests = Map.empty, responseChannels = Map.empty,
      closed' = False, claimChans = Map.empty, resChans = Map.empty, next_addr = 0\<rparr>"

definition ex_res :: "string \<Rightarrow> string \<Rightarrow> Response" where
  "ex_res rid ty =
     \<lparr>res_RequestId = rid, res_Error = '''', res_Code = '''',
      res_Response = Some \<lparr>TypeUrl = ty, Value = ''payload''\<rparr>\<rparr>"

definition ex_env :: "await_event \<Rightarrow> call_env" where
  "ex_env a =
     \<lparr>newRequestID = ''r1'', time_Now = 1000, publish_request = None,
      select_events = [EvClaim (ex_claim ''s1'' (1/2)), EvDone SelectionTimer],
      publish_claim = None, await = a\<rparr>"

text \<open>
  A demultiplexer at its \<open>select\<close> while two requests are in flight: the unary request
  \<open>r1\<close> has left selection (its claim sink, of capacity 1, still holds the claim of server
  \<open>s2\<close>) and awaits its response; the request \<open>r2\<close> awaits a response too.
\<close>

definition ex_dm :: demux_sys where
  "ex_dm =
     \<lparr>dm_client = ex_client
        \<lparr>claimRequests := [''r1'' \<mapsto> 0],
         responseChannels := [''r1'' \<mapsto> 1, ''r2'' \<mapsto> 2],
         claimChans := [0 \<mapsto> \<lparr>cap = 1, buf = [ex_claim ''s2'' (1/2)]\<rparr>],
         resChans := [1 \<mapsto> \<lparr>cap = 1, buf = []\<rparr>, 2 \<mapsto> \<lparr>cap = 1, buf = []\<rparr>],
         next_addr := 3\<rparr>,
      dm_pc = DSelect\<rparr>"

section \<open>Properties of the selection engine\<close>

lemma is_candidate_iff: "is_candidate opts b c = (meets_floor opts c \<and> Affinity c > b)"
  by (auto simp: is_candidate_def meets_floor_def)

lemma is_candidate_0: "is_candidate opts 0 c = qualifies opts c"
  by (auto simp: is_candidate_iff qualifies_def)

lemma selectLoop_skip:
  "\<forall>c\<in>set cs. \<not> is_candidate opts (best s) c \<Longrightarrow>
   selectLoop opts s (map EvClaim cs @ es) = selectLoop opts (s\<lparr>claims := claims s + length cs\<rparr>) es"
proof (induction cs arbitrary: s)
  case Nil
  then show ?case by simp
next
  case (Cons c cs)
  then show ?case by (simp add: Let_def)
qed

lemma selectLoop_prefix:
  "\<not> AcceptFirstAvailable opts \<Longrightarrow>
   \<exists>s'. (\<forall>es. selectLoop opts s (map EvClaim cs @ es) = selectLoop opts s' es) \<and>
        claims s' = claims s + length cs \<and> best s \<le> best s' \<and>
        (\<forall>x\<in>set cs. meets_floor opts x \<longrightarrow> Affinity x \<le> best s') \<and>
        ((best s' = best s \<and> serverID s' = serverID s \<and> (\<forall>c\<in>set cs. \<not> is_candidate opts (best s) c)) \<or>
         (\<exists>c\<in>set cs. is_candidate opts (best s) c \<and> best s' = Affinity c \<and> serverID s' = ServerId c))"
proof (induction cs arbitrary: s)
  case Nil
  show ?case by (intro exI[of _ s]) simp
next
  case (Cons c cs)
  show ?case
  proof (cases "is_candidate opts (best s) c")
    case True
    define s3 where "s3 = (let s1 = s\<lparr>claims := claims s + 1\<rparr>; s2 = s1\<lparr>serverID := ServerId c, best := Affinity c\<rparr> in
        (if ShortCircuitTimeout opts > 0 \<and> \<not> shorted s2
                      then s2\<lparr>shorted := True, armed := armed s2 @ [ShortCircuitTimeout opts]\<rparr>
                      else s2))"
    have step: "\<And>es. selectLoop opts s (EvClaim c # es) = selectLoop opts s3 es"
      using True Cons.prems by (simp add: s3_def Let_def)
    have s3: "best s3 = Affinity c" "serverID s3 = ServerId c" "claims s3 = claims s + 1"
      by (simp_all add: s3_def Let_def)
    from Cons.IH[OF Cons.prems, of s3] obtain s' where
      s': "\<forall>es. selectLoop opts s3 (map EvClaim cs @ es) = selectLoop opts s' es"
          "claims s' = claims s3 + length cs" "best s3 \<le> best s'"
          "\<forall>x\<in>set cs. meets_floor opts x \<longrightarrow> Affinity x \<le> best s'"
          "(best s' = best s3 \<and> serverID s' = serverID s3 \<and> (\<forall>c\<in>set cs. \<not> is_candidate opts (best s3) c)) \<or>
         (\<exists>c\<in>set cs. is_candidate opts (best s3) c \<and> best s' = Affinity c \<and> serverID s' = ServerId c)"
      by blast
    have lt: "best s < Affinity c" using True by (simp add: is_candidate_iff)
    have "\<exists>x\<in>set (c # cs). is_candidate opts (best s) x \<and> best s' = Affinity x \<and> serverID s' = ServerId x"
      using s'(5) s3 True by (auto simp: is_candidate_iff)
    moreover have "best s \<le> best s'" using lt s'(3) s3(1) by simp
    moreover have "\<forall>x\<in>set (c # cs). meets_floor opts x \<longrightarrow> Affinity x \<le> best s'"
      using s'(3,4) s3(1) by simp
    ultimately show ?thesis using s'(1,2) step s3 by (intro exI[of _ s']) auto
  next
    case False
    define s1 where "s1 = s\<lparr>claims := claims s + 1\<rparr>"
    have step: "\<And>es. selectLoop opts s (EvClaim c # es) = selectLoop opts s1 es"
      using False by (simp add: s1_def Let_def)
    from Cons.IH[OF Cons.prems, of s1] obtain s' where
      s': "\<forall>es. selectLoop opts s1 (map EvClaim cs @ es) = selectLoop opts s' es"
          "claims s' = claims s1 + length cs" "best s1 \<le> best s'"
          "\<forall>x\<in>set cs. meets_floor opts x \<longrightarrow> Affinity x \<le> best s'"
          "(best s' = best s1 \<and> serverID s' = serverID s1 \<and> (\<forall>c\<in>set cs. \<not> is_candidate opts (best s1) c)) \<or>
         (\<exists>c\<in>set cs. is_candidate opts (best s1) c \<and> best s' = Affinity c \<and> serverID s' = ServerId c)"
      by blast
    have "meets_floor opts c \<longrightarrow> Affinity c \<le> best s'"
      using False s'(3) by (auto simp: is_candidate_iff s1_def)
    then have "\<forall>x\<in>set (c # cs). meets_floor opts x \<longrightarrow> Affinity x \<le> best s'"
      using s'(4) by simp
    then show ?thesis using s'(1,2,3,5) step False by (intro exI[of _ s']) (auto simp: s1_def)
  qed
qed

lemma best_sel_init [simp]: "best (sel_init opts) = 0" "claims (sel_init opts) = 0"
  by (simp_all add: sel_init_def)

text \<open>
  Whenever some delivered claim qualifies, the claims split around a qualifying claim of
  highest affinity, the earliest of them: every sequence with a qualifying claim is of the
  form the next statement speaks about.
\<close>

lemma highest_claim_exists:
  "\<exists>x\<in>set cs. qualifies opts x \<Longrightarrow>
   \<exists>pre c post. cs = pre @ c # post \<and> qualifies opts c \<and>
     (\<forall>x\<in>set pre. qualifies opts x \<longrightarrow> Affinity x < Affinity c) \<and>
     (\<forall>x\<in>set post. qualifies opts x \<longrightarrow> Affinity x \<le> Affinity c)"
proof (induction cs)
  case Nil
  then show ?case by simp
next
  case (Cons a cs)
  show ?case
  proof (cases "\<exists>x\<in>set cs. qualifies opts x")
    case False
    with Cons.prems have "qualifies opts a" by auto
    with False show ?thesis
      by (intro exI[of _ "[]"] exI[of _ a] exI[of _ cs]) auto
  next
    case True
    from Cons.IH[OF True] obtain pre c post where
      split: "cs = pre @ c # post" and qc: "qualifies opts c"
      and pre: "\<forall>x\<in>set pre. qualifies opts x \<longrightarrow> Affinity x < Affinity c"
      and post: "\<forall>x\<in>set post. qualifies opts x \<longrightarrow> Affinity x \<le> Affinity c"
      by blast
    show ?thesis
    proof (cases "qualifies opts a \<and> Affinity c \<le> Affinity a")
      case True
      have "\<forall>x\<in>set cs. qualifies opts x \<longrightarrow> Affinity x \<le> Affinity a"
        using True pre post split by fastforce
      with True show ?thesis
        by (intro exI[of _ "[]"] exI[of _ a] exI[of _ cs]) auto
    next
      case False
      then have "\<forall>x\<in>set (a # pre). qualifies opts x \<longrightarrow> Affinity x < Affinity c"
        using pre by auto
      with split qc post show ?thesis
        by (intro exI[of _ "a # pre"] exI[of _ c] exI[of _ post]) auto
    qed
  qed
qed

text \<open>
  Claim C1, as amended. With accept-first-available unset, let the claims \<open>pre @ c # post\<close>
  be delivered before the selection ends. If \<open>c\<close> qualifies (its affinity is positive and
  meets the floor), every qualifying claim before it has a strictly lower affinity and
  every qualifying claim after it has at most its affinity, then selection returns the
  server of \<open>c\<close>: the highest qualifying affinity wins, and among equals the earliest.
\<close>

theorem selectServer_highest:
  assumes na: "\<not> AcceptFirstAvailable opts"
    and qc: "qualifies opts c"
    and pre: "\<forall>x\<in>set pre. qualifies opts x \<longrightarrow> Affinity x < Affinity c"
    and post: "\<forall>x\<in>set post. qualifies opts x \<longrightarrow> Affinity x \<le> Affinity c"
  shows "selectServer opts (map EvClaim (pre @ c # post) @ EvDone cause # rest) = Some (Inr (ServerId c))"
proof -
  obtain s1 where
    s1: "\<And>es. selectLoop opts (sel_init opts) (map EvClaim pre @ es) = selectLoop opts s1 es"
    and b1: "best s1 = 0 \<or> (\<exists>x\<in>set pre. qualifies opts x \<and> best s1 = Affinity x)"
    using selectLoop_prefix[OF na, of "sel_init opts" pre] by (auto simp: is_candidate_0)
  have lt: "best s1 < Affinity c"
    using b1 pre qc by (auto simp: qualifies_def)
  have cand: "is_candidate opts (best s1) c"
    using lt qc by (simp add: is_candidate_iff qualifies_def)
  obtain s2 where
    s2: "\<And>es. selectLoop opts s1 (map EvClaim [c] @ es) = selectLoop opts s2 es"
    and b2: "best s2 = Affinity c" "serverID s2 = ServerId c"
    using selectLoop_prefix[OF na, of s1 "[c]"] cand by auto
  have nopost: "\<forall>x\<in>set post. \<not> is_candidate opts (best s2) x"
  proof
    fix x assume x: "x \<in> set post"
    show "\<not> is_candidate opts (best s2) x"
    proof
      assume "is_candidate opts (best s2) x"
      then have "meets_floor opts x" "Affinity c < Affinity x"
        by (simp_all add: is_candidate_iff b2)
      moreover have "0 < Affinity c" using qc by (simp add: qualifies_def)
      ultimately have "qualifies opts x \<and> \<not> Affinity x \<le> Affinity c"
        by (simp add: qualifies_def)
      with post x show False by blast
    qed
  qed
  have ne: "Affinity c \<noteq> 0" using qc by (simp add: qualifies_def)
  have "selectLoop opts (sel_init opts) (map EvClaim (pre @ c # post) @ EvDone cause # rest)
      = selectLoop opts s1 (map EvClaim [c] @ (map EvClaim post @ EvDone cause # rest))"
    using s1[of "EvClaim c # map EvClaim post @ EvDone cause # rest"] by simp
  also have "\<dots> = selectLoop opts s2 (map EvClaim post @ EvDone cause # rest)"
    by (rule s2)
  also have "\<dots> = selectLoop opts (s2\<lparr>claims := claims s2 + length post\<rparr>) (EvDone cause # rest)"
    by (rule selectLoop_skip[OF nopost])
  also have "\<dots> = Some (Inr (ServerId c), s2\<lparr>claims := claims s2 + length post\<rparr>)"
    using ne by (simp add: b2)
  finally show ?thesis by (simp add: selectServer_def)
qed

theorem selectServer_highest_witness:
  "selectServer (ex_opts (1/2) False)
     (map EvClaim ([ex_claim ''a'' (1/5), ex_claim ''b'' (7/10)] @ ex_claim ''c'' (9/10) #
        [ex_claim ''d'' (9/10), ex_claim ''e'' (3/5)]) @ EvDone DeadlineFired # []) =
   Some (Inr ''c'')"
  using selectServer_highest [of "ex_opts (1/2) False" "ex_claim ''c'' (9/10)"
      "[ex_claim ''a'' (1/5), ex_claim ''b'' (7/10)]"
      "[ex_claim ''d'' (9/10), ex_claim ''e'' (3/5)]" DeadlineFired "[]"]
  by (simp add: ex_opts_def ex_claim_def qualifies_def meets_floor_def)

text \<open>
  Claim C1 as it is stated fails for a claim of affinity 0: with no minimum-affinity the
  claim meets the floor and is the only one, and selection returns no server but the
  Unavailable error.
\<close>

theorem selectServer_zero_affinity_counterexample:
  "meets_floor (ex_opts 0 False) (ex_claim ''s1'' 0) \<and>
   selectServer (ex_opts 0 False) [EvClaim (ex_claim ''s1'' 0), EvDone DeadlineFired] =
     Some (Inl (NewError Unavailable ''no servers available (received 1 responses)''))"
  by (simp add: selectServer_def sel_init_def ex_opts_def ex_claim_def is_candidate_def
      meets_floor_def ErrNoServers_def show_nat.simps digit_char_def Let_def)



text \<open>
  Claim C3. With accept-first-available set, claims that do not qualify (affinity not
  positive, or below a positive minimum-affinity) leave selection waiting, and the first
  claim that qualifies ends it at once with its server, whatever comes after it.
\<close>

theorem selectServer_accept_first:
  assumes acc: "AcceptFirstAvailable opts"
    and pre: "\<forall>x\<in>set pre. \<not> qualifies opts x"
  shows "(qualifies opts c \<longrightarrow>
            selectServer opts (map EvClaim pre @ EvClaim c # rest) = Some (Inr (ServerId c))) \<and>
         selectServer opts (map EvClaim pre) = None"
proof -
  have nc: "\<forall>x\<in>set pre. \<not> is_candidate opts (best (sel_init opts)) x"
    using pre by (simp add: is_candidate_0)
  have "selectServer opts (map EvClaim pre) = None"
    using selectLoop_skip[OF nc, of "[]"] by (simp add: selectServer_def)
  moreover have "selectServer opts (map EvClaim pre @ EvClaim c # rest) = Some (Inr (ServerId c))"
    if "qualifies opts c"
    using selectLoop_skip[OF nc, of "EvClaim c # rest"] that acc
    by (simp add: selectServer_def is_candidate_0 Let_def)
  ultimately show ?thesis by blast
qed

theorem selectServer_accept_first_witness:
  "selectServer (ex_opts 0 True)
     (map EvClaim [ex_claim ''a'' 0] @ EvClaim (ex_claim ''b'' (1/5)) #
        [EvClaim (ex_claim ''c'' (9/10)), EvDone DeadlineFired]) = Some (Inr ''b'') \<and>
   selectServer (ex_opts 0 True) (map EvClaim [ex_claim ''a'' 0]) = None"
  using selectServer_accept_first [of "ex_opts 0 True" "[ex_claim ''a'' 0]" "ex_claim ''b'' (1/5)"
      "[EvClaim (ex_claim ''c'' (9/10)), EvDone DeadlineFired]"]
  by (simp add: ex_opts_def ex_claim_def qualifies_def meets_floor_def)

section \<open>The expiry timestamp\<close>

text \<open>
  The expiry of a request envelope is the \<open>int64\<close> sum of the clock and the timeout: it
  is the exact sum while that fits, and wraps around for a large timeout (here a clock of
  2023 and a timeout of some 285 years).
\<close>

lemma int64_in_range: "- (2 ^ 63) \<le> x \<Longrightarrow> x < 2 ^ 63 \<Longrightarrow> int64 x = x"
  by (simp add: int64_def)

lemma int64_wraps: "int64 (1700000000000000000 + 9000000000000000000) = - 7746744073709551616"
  by (simp add: int64_def)

section \<open>Termination of the unary driver\<close>

text \<open>
  The loop of \<open>selectServer\<close> ends as soon as it observes \<open>ctx.Done()\<close>, and the context
  of a call has a deadline: a call whose selection observes \<open>ctx.Done()\<close> returns.
\<close>

lemma selectLoop_returns:
  "EvDone cause \<in> set es \<Longrightarrow> selectLoop opts s es \<noteq> None"
proof (induction es arbitrary: s)
  case Nil
  then show ?case by simp
next
  case (Cons e es)
  show ?case
  proof (cases e)
    case (EvClaim claim)
    with Cons.prems have "EvDone cause \<in> set es" by simp
    from Cons.IH[OF this] EvClaim show ?thesis by (simp add: Let_def)
  next
    case (EvDone x)
    then show ?thesis by simp
  qed
qed

lemma selectServer_returns:
  "EvDone cause \<in> set es \<Longrightarrow> \<exists>r. selectServer opts es = Some r"
  using selectLoop_returns[of cause es opts "sel_init opts"] by (auto simp: selectServer_def)

lemma RequestSingle_exchange_returns:
  "EvDone cause \<in> set (select_events env) \<Longrightarrow>
   \<exists>r. RequestSingle_exchange cd rt c rpc topic req ro env = Some r"
  using selectServer_returns[of cause "select_events env" "selectionOpts ro"]
  by (auto simp: RequestSingle_exchange_def Let_def split: option.splits sum.splits await_event.splits decoded.splits)

lemma RequestSingle_returns:
  "EvDone cause \<in> set (select_events env) \<Longrightarrow>
   \<exists>r. RequestSingle cd rt c rpc topic request ro env = Some r"
proof -
  assume d: "EvDone cause \<in> set (select_events env)"
  show ?thesis
  proof (cases "anypb_New cd request")
    case (Inl e)
    then show ?thesis by (simp add: RequestSingle_def Let_def)
  next
    case (Inr v)
    then show ?thesis
      using RequestSingle_exchange_returns[OF d, of cd rt]
      by (simp add: RequestSingle_def Let_def split: prod.splits option.splits) (metis option.distinct(1) surj_pair)
  qed
qed

section \<open>Runs on the example inputs\<close>

lemma ex_select [simp]:
  "selectServer (ex_opts 0 False) [EvClaim (ex_claim ''s1'' (1/2)), EvDone SelectionTimer] = Some (Inr ''s1'')"
  by (simp add: selectServer_def sel_init_def ex_opts_def ex_claim_def is_candidate_def Let_def)

lemma ex_RequestSingle_timeout:
  "\<exists>c' effs. RequestSingle ex_codec ex_rt ex_client ''Ping'' ''t'' (''Ping'', ''hi'') ex_ro
      (ex_env (CtxDone cause)) = Some (c', effs, fails ErrRequestTimedOut)"
  by (simp add: RequestSingle_def RequestSingle_exchange_def ex_codec_def ex_env_def ex_ro_def
      make_claimChan_def make_resChan_def Let_def)

lemma ex_multi_start:
  "multi_start ex_codec ex_client ''Ping'' ''t'' (''Ping'', ''hi'') ex_ro (ex_env a) =
     Some \<lparr>ms_client = ex_client\<lparr>resChans := [0 \<mapsto> \<lparr>cap = 1, buf = []\<rparr>], next_addr := 1,
                                  responseChannels := [''r1'' \<mapsto> 0]\<rparr>,
           ms_drainer = \<lparr>dr_requestID = ''r1'', dr_request = (''Ping'', ''hi''),
                         dr_info = \<lparr>Method = ''Ping'', Topic = ''t''\<rparr>, dr_resChan = 0,
                         dr_pc = AtSelect, timer_fired = False,
                         responseChannel = \<lparr>cap = 1, buf = []\<rparr>,
                         responseChannel_closed = False, taken = [], forwarded = []\<rparr>,
           ms_effects = [RequestHook 7 (''Ping'', ''hi'') \<lparr>Method = ''Ping'', Topic = ''t''\<rparr>,
                         Published (getRPCChannel ''svc'' ''Ping'' ''t'')
                           (MsgRequest \<lparr>req_RequestId = ''r1'', req_ClientId = ''client1'',
                                        req_SentAt = 1000, req_Expiry = 1000001000, req_Multi = True,
                                        req_Request = \<lparr>TypeUrl = ''Ping'', Value = ''hi''\<rparr>\<rparr>)]\<rparr>"
  by (simp add: multi_start_def RequestMulti_def ex_codec_def ex_env_def ex_ro_def ex_client_def
      make_resChan_def request_hooks_def int64_def Let_def)

lemma ex_multi_run:
  "\<exists>s. Option.bind (multi_start ex_codec ex_client ''Ping'' ''t'' (''Ping'', ''hi'') ex_ro (ex_env a))
          (run (multi_step ex_codec ex_rt)
             [Deliver (ex_res ''r1'' ''Pong''), TakeResponse, CompleteSend, TimerFires, TakeTimer,
              CloseStream, Deliver (ex_res ''r1'' ''Pong'')]) = Some s \<and>
       dr_pc (ms_drainer s) = Exited \<and>
       forwarded (ms_drainer s) = [\<lparr>Result = Some (''Pong'', ''payload''), Err = None\<rparr>] \<and>
       buf (responseChannel (ms_drainer s)) = [\<lparr>Result = Some (''Pong'', ''payload''), Err = None\<rparr>]"
  by (simp only: ex_multi_start Option.bind.simps,
      simp add: ex_res_def ex_client_def ex_codec_def ex_rt_def decode_response_def
        drainer_handle_def response_hooks_def Let_def)


lemma ex_RequestSingle_failure_effects:
  "RequestSingle ex_codec ex_rt ex_client ''Ping'' ''t'' ('''', ''hi'') ex_ro (ex_env a) =
     Some (ex_client,
           [RequestHook 7 ('''', ''hi'') \<lparr>Method = ''Ping'', Topic = ''t''\<rparr>,
            ResponseHook 8 ('''', ''hi'') \<lparr>Method = ''Ping'', Topic = ''t''\<rparr> None
              (Some (NewError MalformedRequest ''invalid nil source message'')),
            ResponseHook 9 ('''', ''hi'') \<lparr>Method = ''Ping'', Topic = ''t''\<rparr> None
              (Some (NewError MalformedRequest ''invalid nil source message''))],
           fails (NewError MalformedRequest ''invalid nil source message''))"
  by (simp add: RequestSingle_def ex_codec_def ex_client_def request_hooks_def response_hooks_def
      fails_def Let_def)

section \<open>The correlation table after a unary call\<close>

lemma unregister_absent [simp]:
  "claimRequests (unregister rid c) rid = None" "responseChannels (unregister rid c) rid = None"
  by (simp_all add: unregister_def)

lemma responseHooks_unregister [simp]: "responseHooks (unregister rid c) = responseHooks c"
  by (simp add: unregister_def)

text \<open>
  Claim C4. Take any call of \<open>RequestSingle\<close> that ends, whatever its surroundings did
  (success, a failed publish of the request, a failed selection, a failed publish of the
  claim response, a timeout, also the panic of the type assertion). If the request was
  encoded, so that the call has a request id, both maps have no entry for that id
  afterwards. In any case, so also when encoding failed, an id that was in neither map
  before the call is in neither map after it.
\<close>

theorem RequestSingle_unregisters:
  assumes "RequestSingle cd rt c rpc topic request ro env = Some (c', effs, out)"
  shows "((\<exists>v. anypb_New cd request = Inr v) \<longrightarrow>
            claimRequests c' (newRequestID env) = None \<and>
            responseChannels c' (newRequestID env) = None) \<and>
         (claimRequests c (newRequestID env) = None \<and> responseChannels c (newRequestID env) = None \<longrightarrow>
            claimRequests c' (newRequestID env) = None \<and>
            responseChannels c' (newRequestID env) = None)"
proof (cases "anypb_New cd request")
  case (Inl e)
  with assms have "c' = c" by (simp add: RequestSingle_def Let_def)
  with Inl show ?thesis by simp
next
  case (Inr v)
  with assms have "\<exists>c3. c' = unregister (newRequestID env) c3"
    by (auto simp: RequestSingle_def Let_def split: prod.splits option.splits)
  then show ?thesis by auto
qed

text \<open>
  A call that times out while it awaits the response: its id \<open>r1\<close> is in neither map
  afterwards.
\<close>

theorem RequestSingle_unregisters_witness:
  "\<exists>c' effs. RequestSingle ex_codec ex_rt ex_client ''Ping'' ''t'' (''Ping'', ''hi'') ex_ro
      (ex_env (CtxDone DeadlineFired)) = Some (c', effs, fails ErrRequestTimedOut) \<and>
      claimRequests c' ''r1'' = None \<and> responseChannels c' ''r1'' = None"
proof -
  from ex_RequestSingle_timeout[of DeadlineFired] obtain c' effs where
    r: "RequestSingle ex_codec ex_rt ex_client ''Ping'' ''t'' (''Ping'', ''hi'') ex_ro
      (ex_env (CtxDone DeadlineFired)) = Some (c', effs, fails ErrRequestTimedOut)"
    by blast
  have "\<exists>v. anypb_New ex_codec (''Ping'', ''hi'') = Inr v" by (simp add: ex_codec_def)
  with RequestSingle_unregisters[OF r] have
    "claimRequests c' ''r1'' = None \<and> responseChannels c' ''r1'' = None"
    by (simp add: ex_env_def)
  with r show ?thesis by blast
qed

section \<open>Response hooks\<close>

lemma filter_request_hooks [simp]:
  "filter is_ResponseHook (request_hooks c request info) = []"
  "filter is_Publish (request_hooks c request info) = []"
  by (simp_all add: request_hooks_def)

lemma filter_response_hooks [simp]:
  "filter is_ResponseHook (response_hooks c request info r e) = response_hooks c request info r e"
  "filter is_Publish (response_hooks c request info r e) = []"
  by (simp_all add: response_hooks_def)

lemma response_hooks_cong:
  "responseHooks c' = responseHooks c \<Longrightarrow>
   response_hooks c' request info r e = response_hooks c request info r e"
  by (simp add: response_hooks_def)

lemma response_hooks_update [simp]:
  "response_hooks (resChans_update f1 c) = response_hooks c"
  "response_hooks (claimChans_update f2 c) = response_hooks c"
  "response_hooks (next_addr_update f3 c) = response_hooks c"
  "response_hooks (responseChannels_update f4 c) = response_hooks c"
  "response_hooks (claimRequests_update f5 c) = response_hooks c"
  by (simp_all add: response_hooks_def fun_eq_iff)

lemma RequestSingle_exchange_no_hooks:
  "RequestSingle_exchange cd rt c rpc topic req ro env = Some (effs, out) \<Longrightarrow>
   filter is_ResponseHook effs = []"
  by (auto simp: RequestSingle_exchange_def Let_def
      split: option.splits sum.splits await_event.splits decoded.splits)

lemma RequestSingle_effects:
  assumes "RequestSingle cd rt c rpc topic request ro env = Some (c', effs, out)"
  shows "\<exists>pre. effs = pre @ response_hooks c request \<lparr>Method = rpc, Topic = topic\<rparr> (response out) (err out) \<and>
               filter is_ResponseHook pre = []"
proof (cases "anypb_New cd request")
  case (Inl e)
  with assms show ?thesis by (auto simp: RequestSingle_def Let_def)
next
  case (Inr v)
  with assms obtain c3 ex where
    ex: "RequestSingle_exchange cd rt c3 rpc topic
           \<lparr>req_RequestId = newRequestID env, req_ClientId = id' c, req_SentAt = time_Now env,
            req_Expiry = int64 (time_Now env + timeout ro), req_Multi = False, req_Request = v\<rparr> ro env = Some (ex, out)"
    and effs: "effs = request_hooks c request \<lparr>Method = rpc, Topic = topic\<rparr> @ ex @
                 response_hooks (unregister (newRequestID env) c3) request \<lparr>Method = rpc, Topic = topic\<rparr> (response out) (err out)"
    and c3: "responseHooks c3 = responseHooks c"
    by (auto simp: RequestSingle_def Let_def make_claimChan_def make_resChan_def split: prod.splits option.splits)
  have "response_hooks (unregister (newRequestID env) c3) request \<lparr>Method = rpc, Topic = topic\<rparr> (response out) (err out)
        = response_hooks c request \<lparr>Method = rpc, Topic = topic\<rparr> (response out) (err out)"
    by (rule response_hooks_cong) (simp add: c3)
  with effs RequestSingle_exchange_no_hooks[OF ex] show ?thesis
    by (intro exI[of _ "request_hooks c request \<lparr>Method = rpc, Topic = topic\<rparr> @ ex"]) simp
qed

text \<open>
  A call of \<open>RequestSingle\<close> whose selection observes \<open>ctx.Done()\<close> returns, and its
  effects are some effects without any response hook call followed by one call of each
  response hook of the client, in order, with the result and the error the call ends
  with. On the two failures before selection the effects are, in full, the request hook
  calls, the failed publish if any, and one call of each response hook with a nil result
  and the error.
\<close>

lemma RequestSingle_fires_hooks_once:
  assumes "EvDone cause \<in> set (select_events env)"
  shows "\<exists>c' pre out. RequestSingle cd rt c rpc topic request ro env =
           Some (c', pre @ response_hooks c request \<lparr>Method = rpc, Topic = topic\<rparr> (response out) (err out), out) \<and>
           filter is_ResponseHook pre = []"
proof -
  from RequestSingle_returns[OF assms, of cd rt c rpc topic request ro]
  obtain c' effs out where r: "RequestSingle cd rt c rpc topic request ro env = Some (c', effs, out)"
    by (metis prod_cases3)
  from RequestSingle_effects[OF r] r show ?thesis by blast
qed

lemma RequestSingle_encode_failure_hooks:
  "anypb_New cd request = Inl e \<Longrightarrow>
   RequestSingle cd rt c rpc topic request ro env =
     Some (c,
           request_hooks c request \<lparr>Method = rpc, Topic = topic\<rparr> @
           response_hooks c request \<lparr>Method = rpc, Topic = topic\<rparr> None (Some (NewError MalformedRequest e)),
           fails (NewError MalformedRequest e))"
  by (simp add: RequestSingle_def Let_def fails_def)

lemma RequestSingle_publish_failure_hooks:
  "anypb_New cd request = Inr v \<Longrightarrow> publish_request env = Some e \<Longrightarrow>
   \<exists>c' req. RequestSingle cd rt c rpc topic request ro env =
     Some (c',
           request_hooks c request \<lparr>Method = rpc, Topic = topic\<rparr> @
           [PublishFailed (getRPCChannel (serviceName c) rpc topic) (MsgRequest req) e] @
           response_hooks c request \<lparr>Method = rpc, Topic = topic\<rparr> None (Some (NewError Internal e)),
           fails (NewError Internal e))"
  by (simp add: RequestSingle_def RequestSingle_exchange_def make_claimChan_def make_resChan_def
      unregister_def Let_def fails_def)

text \<open>
  \<open>RequestMulti\<close> itself calls the response hooks exactly when it returns an error, once
  each with a nil result and that error; it returns an error exactly when encoding or
  publishing failed.
\<close>

lemma RequestMulti_hooks:
  assumes "RequestMulti cd c rpc topic request ro env = (c', effs, out)"
  shows "filter is_ResponseHook effs =
           (case m_err out of None \<Rightarrow> []
            | Some e \<Rightarrow> response_hooks c request \<lparr>Method = rpc, Topic = topic\<rparr> None (Some e)) \<and>
         (m_err out = None \<longleftrightarrow> (\<exists>v. anypb_New cd request = Inr v) \<and> publish_request env = None)"
proof (cases "anypb_New cd request")
  case (Inl e)
  with assms show ?thesis by (auto simp: RequestMulti_def Let_def)
next
  case (Inr v)
  show ?thesis
  proof (cases "publish_request env")
    case None
    with Inr assms show ?thesis
      by (auto simp: RequestMulti_def Let_def make_resChan_def split: prod.splits)
  next
    case (Some e)
    with Inr assms show ?thesis
      by (auto simp: RequestMulti_def Let_def make_resChan_def split: prod.splits)
  qed
qed

lemma drainer_handle_frame:
  "ms_client (drainer_handle cd rt res s) = ms_client s"
  "dr_request (ms_drainer (drainer_handle cd rt res s)) = dr_request (ms_drainer s)"
  "dr_info (ms_drainer (drainer_handle cd rt res s)) = dr_info (ms_drainer s)"
  "dr_requestID (ms_drainer (drainer_handle cd rt res s)) = dr_requestID (ms_drainer s)"
  "dr_resChan (ms_drainer (drainer_handle cd rt res s)) = dr_resChan (ms_drainer s)"
  "responseChannel_closed (ms_drainer (drainer_handle cd rt res s)) = responseChannel_closed (ms_drainer s)"
  "forwarded (ms_drainer (drainer_handle cd rt res s)) = forwarded (ms_drainer s)"
  "timer_fired (ms_drainer (drainer_handle cd rt res s)) = timer_fired (ms_drainer s)"
  "responseChannel (ms_drainer (drainer_handle cd rt res s)) = responseChannel (ms_drainer s)"
  "taken (ms_drainer (drainer_handle cd rt res s)) = taken (ms_drainer s) @ [res]"
  by (simp_all add: drainer_handle_def Let_def split: decoded.splits)


lemma drainer_handle_effects:
  "ms_effects (drainer_handle cd rt res s) =
     ms_effects s @
     hooks_for (ms_client s) (ms_drainer s) (pending (ms_drainer (drainer_handle cd rt res s)))"
  by (simp add: drainer_handle_def Let_def hooks_for_def pending_def split: decoded.splits)

lemma hooks_for_append [simp]: "hooks_for c d (xs @ ys) = hooks_for c d xs @ hooks_for c d ys"
  by (simp add: hooks_for_def)

lemma hooks_for_Nil [simp]: "hooks_for c d [] = []"
  by (simp add: hooks_for_def)

lemma hooks_for_cong:
  "responseHooks c' = responseHooks c \<Longrightarrow> dr_request d' = dr_request d \<Longrightarrow> dr_info d' = dr_info d \<Longrightarrow>
   hooks_for c' d' rs = hooks_for c d rs"
  by (simp add: hooks_for_def response_hooks_def)

lemma filter_hooks_for [simp]: "filter is_ResponseHook (hooks_for c d rs) = hooks_for c d rs"
  by (induction rs) (simp_all add: hooks_for_def)

lemma multi_step_frame:
  assumes "multi_step cd rt a s = Some s'"
  shows "responseHooks (ms_client s') = responseHooks (ms_client s)"
    and "dr_request (ms_drainer s') = dr_request (ms_drainer s)"
    and "dr_info (ms_drainer s') = dr_info (ms_drainer s)"
    and "dr_requestID (ms_drainer s') = dr_requestID (ms_drainer s)"
  using assms
  by (cases a; auto simp: Let_def drainer_handle_frame split: option.splits if_splits list.splits drainer_pc.splits)+

text \<open>
  What one step adds: the hook calls for exactly the typed responses that newly stand at
  or behind the send.
\<close>

lemma multi_step_hooks:
  assumes "multi_step cd rt a s = Some s'"
  shows "\<exists>new. ms_effects s' = ms_effects s @ hooks_for (ms_client s) (ms_drainer s) new \<and>
               forwarded (ms_drainer s') @ pending (ms_drainer s') =
               forwarded (ms_drainer s) @ pending (ms_drainer s) @ new"
proof (cases a)
  case (Deliver res)
  with assms show ?thesis
    by (intro exI[of _ "[]"]) (auto simp: Let_def split: option.splits if_splits)
next
  case (Rendezvous res)
  with assms have s': "s' = drainer_handle cd rt res s" and pc: "dr_pc (ms_drainer s) = AtSelect"
    by (auto simp: Let_def split: option.splits if_splits)
  show ?thesis
    unfolding s'
    by (intro exI[of _ "pending (ms_drainer (drainer_handle cd rt res s))"])
       (simp add: drainer_handle_effects drainer_handle_frame pending_def pc)
next
  case TimerFires
  with assms show ?thesis
    by (intro exI[of _ "[]"]) (auto simp: pending_def)
next
  case TakeResponse
  with assms obtain s1 res where s': "s' = drainer_handle cd rt res s1"
    and pc: "dr_pc (ms_drainer s) = AtSelect"
    and s1: "ms_drainer s1 = ms_drainer s" "ms_effects s1 = ms_effects s"
            "responseHooks (ms_client s1) = responseHooks (ms_client s)"
    by (auto simp: Let_def split: option.splits if_splits list.splits)
  have "hooks_for (ms_client s1) (ms_drainer s1) xs = hooks_for (ms_client s) (ms_drainer s) xs" for xs
    by (rule hooks_for_cong) (simp_all add: s1)
  then show ?thesis
    unfolding s'
    by (intro exI[of _ "pending (ms_drainer (drainer_handle cd rt res s1))"])
       (simp add: drainer_handle_effects drainer_handle_frame pending_def pc s1)
next
  case CompleteSend
  with assms show ?thesis
    by (intro exI[of _ "[]"]) (auto simp: Let_def pending_def split: drainer_pc.splits if_splits)
next
  case TakeTimer
  with assms show ?thesis
    by (intro exI[of _ "[]"]) (auto simp: Let_def pending_def split: if_splits)
next
  case CloseStream
  with assms show ?thesis
    by (intro exI[of _ "[]"]) (auto simp: Let_def pending_def split: if_splits)
next
  case CallerReceive
  with assms show ?thesis
    by (intro exI[of _ "[]"]) (auto simp: Let_def pending_def split: drainer_pc.splits if_splits list.splits)
qed

lemma run_multi_hooks:
  "run (multi_step cd rt) acts s = Some s' \<Longrightarrow>
   filter is_ResponseHook (ms_effects s) = base @ hooks_for c d (forwarded (ms_drainer s) @ pending (ms_drainer s)) \<Longrightarrow>
   responseHooks (ms_client s) = responseHooks c \<Longrightarrow>
   dr_request (ms_drainer s) = dr_request d \<Longrightarrow> dr_info (ms_drainer s) = dr_info d \<Longrightarrow>
   filter is_ResponseHook (ms_effects s') = base @ hooks_for c d (forwarded (ms_drainer s') @ pending (ms_drainer s'))"
proof (induction acts arbitrary: s)
  case Nil
  then show ?case by simp
next
  case (Cons a acts)
  from Cons.prems(1) obtain s1 where st: "multi_step cd rt a s = Some s1"
    and rn: "run (multi_step cd rt) acts s1 = Some s'"
    by (auto split: option.splits)
  from multi_step_hooks[OF st] obtain new where
    new: "ms_effects s1 = ms_effects s @ hooks_for (ms_client s) (ms_drainer s) new"
         "forwarded (ms_drainer s1) @ pending (ms_drainer s1) =
          forwarded (ms_drainer s) @ pending (ms_drainer s) @ new"
    by blast
  have eq: "hooks_for (ms_client s) (ms_drainer s) new = hooks_for c d new"
    by (rule hooks_for_cong) (simp_all add: Cons.prems)
  have "filter is_ResponseHook (ms_effects s1) =
        base @ hooks_for c d (forwarded (ms_drainer s1) @ pending (ms_drainer s1))"
    using new(2) Cons.prems(2) by (simp add: new(1) eq)
  with rn multi_step_frame[OF st] Cons.prems(3-5) show ?case
    by (intro Cons.IH) simp_all
qed

lemma multi_start_facts:
  assumes "multi_start cd c rpc topic request ro env = Some s0"
  shows "responseHooks (ms_client s0) = responseHooks c"
    and "dr_request (ms_drainer s0) = request"
    and "dr_info (ms_drainer s0) = \<lparr>Method = rpc, Topic = topic\<rparr>"
    and "dr_requestID (ms_drainer s0) = newRequestID env"
    and "dr_pc (ms_drainer s0) = AtSelect"
    and "forwarded (ms_drainer s0) = []"
    and "\<not> responseChannel_closed (ms_drainer s0)"
    and "responseChannels (ms_client s0) (newRequestID env) = Some (dr_resChan (ms_drainer s0))"
  using assms
  by (auto simp: multi_start_def RequestMulti_def Let_def make_resChan_def
      split: prod.splits option.splits sum.splits)

text \<open>
  In every run of the goroutine of \<open>RequestMulti\<close> the response hook calls made since the
  call are one call of each hook for each typed response sent on, or about to be sent on,
  the caller-visible channel, in order.
\<close>

lemma multi_hooks_per_forwarded:
  assumes st: "multi_start cd c rpc topic request ro env = Some s0"
    and rn: "run (multi_step cd rt) acts s0 = Some s"
  shows "filter is_ResponseHook (ms_effects s) =
           filter is_ResponseHook (ms_effects s0) @
           hooks_for c (ms_drainer s0) (forwarded (ms_drainer s) @ pending (ms_drainer s))"
proof -
  note f = multi_start_facts[OF st]
  have "filter is_ResponseHook (ms_effects s0) =
        filter is_ResponseHook (ms_effects s0) @
        hooks_for c (ms_drainer s0) (forwarded (ms_drainer s0) @ pending (ms_drainer s0))"
    by (simp add: f pending_def)
  from run_multi_hooks[OF rn this f(1)] show ?thesis by simp
qed

lemma hooks_of_taken_append [simp]:
  "hooks_of_taken cd rt c d (xs @ ys) = hooks_of_taken cd rt c d xs @ hooks_of_taken cd rt c d ys"
  by (simp add: hooks_of_taken_def)

lemma hooks_of_taken_Nil [simp]: "hooks_of_taken cd rt c d [] = []"
  by (simp add: hooks_of_taken_def)

lemma hooks_of_taken_cong:
  "responseHooks c' = responseHooks c \<Longrightarrow> dr_request d' = dr_request d \<Longrightarrow> dr_info d' = dr_info d \<Longrightarrow>
   hooks_of_taken cd rt c' d' ress = hooks_of_taken cd rt c d ress"
proof -
  assume h: "responseHooks c' = responseHooks c" and "dr_request d' = dr_request d"
    and "dr_info d' = dr_info d"
  have "response_hooks c' m i r e = response_hooks c m i r e" for m :: 'a and i r e
    using h by (simp add: response_hooks_def)
  then show ?thesis
    using \<open>dr_request d' = dr_request d\<close> \<open>dr_info d' = dr_info d\<close>
    by (induction ress) (simp_all add: hooks_of_taken_def split: decoded.splits)
qed

lemma filter_hooks_of_taken [simp]:
  "filter is_ResponseHook (hooks_of_taken cd rt c d ress) = hooks_of_taken cd rt c d ress"
  by (induction ress) (simp_all add: hooks_of_taken_def split: decoded.splits)

lemma drainer_handle_taken_effects:
  "ms_effects (drainer_handle cd rt res s) =
     ms_effects s @ hooks_of_taken cd rt (ms_client s) (ms_drainer s) [res]"
  by (simp add: drainer_handle_def Let_def hooks_of_taken_def split: decoded.splits)

lemma multi_step_taken:
  assumes "multi_step cd rt a s = Some s'"
  shows "\<exists>new. taken (ms_drainer s') = taken (ms_drainer s) @ new \<and>
               ms_effects s' = ms_effects s @ hooks_of_taken cd rt (ms_client s) (ms_drainer s) new \<and>
               (new \<noteq> [] \<longrightarrow> a = TakeResponse \<or> (\<exists>res. a = Rendezvous res))"
proof (cases a)
  case (Deliver res)
  with assms show ?thesis
    by (intro exI[of _ "[]"]) (auto simp: Let_def split: option.splits if_splits)
next
  case (Rendezvous res)
  with assms have s': "s' = drainer_handle cd rt res s"
    by (auto simp: Let_def split: option.splits if_splits)
  show ?thesis unfolding s'
    by (intro exI[of _ "[res]"]) (simp add: drainer_handle_taken_effects drainer_handle_frame Rendezvous)
next
  case TimerFires
  with assms show ?thesis by (intro exI[of _ "[]"]) auto
next
  case TakeResponse
  with assms obtain s1 res where s': "s' = drainer_handle cd rt res s1"
    and s1: "ms_drainer s1 = ms_drainer s" "ms_effects s1 = ms_effects s"
            "responseHooks (ms_client s1) = responseHooks (ms_client s)"
    by (auto simp: Let_def split: option.splits if_splits list.splits)
  have "hooks_of_taken cd rt (ms_client s1) (ms_drainer s1) xs =
        hooks_of_taken cd rt (ms_client s) (ms_drainer s) xs" for xs
    by (rule hooks_of_taken_cong) (simp_all add: s1)
  then show ?thesis unfolding s'
    by (intro exI[of _ "[res]"]) (simp add: drainer_handle_taken_effects drainer_handle_frame s1 TakeResponse)
next
  case CompleteSend
  with assms show ?thesis
    by (intro exI[of _ "[]"]) (auto simp: Let_def split: drainer_pc.splits if_splits)
next
  case TakeTimer
  with assms show ?thesis
    by (intro exI[of _ "[]"]) (auto simp: Let_def split: if_splits)
next
  case CloseStream
  with assms show ?thesis
    by (intro exI[of _ "[]"]) (auto simp: Let_def split: if_splits)
next
  case CallerReceive
  with assms show ?thesis
    by (intro exI[of _ "[]"]) (auto simp: Let_def split: drainer_pc.splits if_splits list.splits)
qed

lemma run_multi_taken:
  "run (multi_step cd rt) acts s = Some s' \<Longrightarrow>
   filter is_ResponseHook (ms_effects s) = base @ hooks_of_taken cd rt c d (taken (ms_drainer s)) \<Longrightarrow>
   responseHooks (ms_client s) = responseHooks c \<Longrightarrow>
   dr_request (ms_drainer s) = dr_request d \<Longrightarrow> dr_info (ms_drainer s) = dr_info d \<Longrightarrow>
   filter is_ResponseHook (ms_effects s') = base @ hooks_of_taken cd rt c d (taken (ms_drainer s'))"
proof (induction acts arbitrary: s)
  case Nil
  then show ?case by simp
next
  case (Cons a acts)
  from Cons.prems(1) obtain s1 where st: "multi_step cd rt a s = Some s1"
    and rn: "run (multi_step cd rt) acts s1 = Some s'"
    by (auto split: option.splits)
  from multi_step_taken[OF st] obtain new where
    new: "taken (ms_drainer s1) = taken (ms_drainer s) @ new"
         "ms_effects s1 = ms_effects s @ hooks_of_taken cd rt (ms_client s) (ms_drainer s) new"
    by blast
  have eq: "hooks_of_taken cd rt (ms_client s) (ms_drainer s) new = hooks_of_taken cd rt c d new"
    by (rule hooks_of_taken_cong) (simp_all add: Cons.prems)
  have "filter is_ResponseHook (ms_effects s1) =
        base @ hooks_of_taken cd rt c d (taken (ms_drainer s1))"
    using Cons.prems(2) by (simp add: new eq)
  with rn multi_step_frame[OF st] Cons.prems(3-5) show ?case
    by (intro Cons.IH) simp_all
qed

text \<open>
  In every run of the goroutine the response hook calls made since the call are, for the
  envelopes the goroutine has received from its sink, in order: one call of each hook for
  an envelope that is converted, and none for an envelope at which the type assertion
  panics.
\<close>

lemma multi_hooks_per_taken:
  assumes st: "multi_start cd c rpc topic request ro env = Some s0"
    and rn: "run (multi_step cd rt) acts s0 = Some s"
  shows "filter is_ResponseHook (ms_effects s) =
           filter is_ResponseHook (ms_effects s0) @
           hooks_of_taken cd rt c (ms_drainer s0) (taken (ms_drainer s))"
proof -
  note f = multi_start_facts[OF st]
  have t0: "taken (ms_drainer s0) = []"
    using st by (auto simp: multi_start_def RequestMulti_def Let_def make_resChan_def
        split: prod.splits option.splits sum.splits)
  have "filter is_ResponseHook (ms_effects s0) =
        filter is_ResponseHook (ms_effects s0) @ hooks_of_taken cd rt c (ms_drainer s0) (taken (ms_drainer s0))"
    by (simp add: t0)
  from run_multi_taken[OF rn this f(1)] show ?thesis by simp
qed

text \<open>
  Claim C5 does not hold of the code, for \<open>RequestMulti\<close>. In the first run the goroutine
  receives a response whose payload decodes to a message of another type than the type
  parameter: the type assertion of line 313 panics before the hooks of line 318 are
  reached, so the response was received and no response hook is called for it, and
  nothing is forwarded. In the second run the response has the expected type and each
  hook is called once. The rest of the claim holds, as the statements above say.
\<close>

theorem hooks_skipped_when_type_assertion_panics:
  "map_option (\<lambda>s. (taken (ms_drainer s), filter is_ResponseHook (ms_effects s),
                    forwarded (ms_drainer s), dr_pc (ms_drainer s)))
     (Option.bind
        (multi_start ex_codec ex_client ''Ping'' ''t'' (''Ping'', ''hi'') ex_ro
           (ex_env (CtxDone DeadlineFired)))
        (run (multi_step ex_codec ex_rt) [Deliver (ex_res ''r1'' ''Other''), TakeResponse])) =
     Some ([ex_res ''r1'' ''Other''], [], [], Crashed) \<and>
   map_option (\<lambda>s. (taken (ms_drainer s), filter is_ResponseHook (ms_effects s),
                    forwarded (ms_drainer s), dr_pc (ms_drainer s)))
     (Option.bind
        (multi_start ex_codec ex_client ''Ping'' ''t'' (''Ping'', ''hi'') ex_ro
           (ex_env (CtxDone DeadlineFired)))
        (run (multi_step ex_codec ex_rt) [Deliver (ex_res ''r1'' ''Pong''), TakeResponse])) =
     Some ([ex_res ''r1'' ''Pong''],
           [ResponseHook 8 (''Ping'', ''hi'') \<lparr>Method = ''Ping'', Topic = ''t''\<rparr>
              (Some (''Pong'', ''payload'')) None,
            ResponseHook 9 (''Ping'', ''hi'') \<lparr>Method = ''Ping'', Topic = ''t''\<rparr>
              (Some (''Pong'', ''payload'')) None],
           [], Sending \<lparr>Result = Some (''Pong'', ''payload''), Err = None\<rparr>)"
  by (simp only: ex_multi_start Option.bind.simps,
      simp add: decode_response_def drainer_handle_def response_hooks_def ex_codec_def ex_rt_def
        ex_res_def ex_client_def Let_def)

section \<open>Decoding and the type assertion\<close>

text \<open>
  A payload that cannot be decoded yields the MalformedResponse error. The type assertion
  panics exactly when the envelope carries no error text and its payload decodes to a
  message that is not of the type parameter.
\<close>

lemma decode_response_MalformedResponse:
  "res_Error res = '''' \<Longrightarrow> UnmarshalNew cd (res_Response res) = Inl e \<Longrightarrow>
   decode_response cd rt res = Decoded None (Some (NewError MalformedResponse e))"
  by (simp add: decode_response_def)

lemma decode_response_panics_iff:
  "decode_response cd rt res = TypeAssertionPanic \<longleftrightarrow>
   res_Error res = '''' \<and> (\<exists>r. UnmarshalNew cd (res_Response res) = Inr r \<and> \<not> rt r)"
  by (auto simp: decode_response_def split: sum.splits)

text \<open>
  Claim C6 does not hold of the code. The type assertion \<open>r.(ResponseType)\<close> is unguarded: a
  response whose payload decodes to a message of another type than the type parameter
  (here \<open>Other\<close> where \<open>Pong\<close> is expected) yields no MalformedResponse error.
  \<open>RequestSingle\<close> panics, and the goroutine of \<open>RequestMulti\<close> panics before it calls the
  hooks or forwards anything.
\<close>

theorem type_assertion_panics:
  "decode_response ex_codec ex_rt (ex_res ''r1'' ''Other'') = TypeAssertionPanic \<and>
   map_option (\<lambda>r. panicked (snd (snd r)))
     (RequestSingle ex_codec ex_rt ex_client ''Ping'' ''t'' (''Ping'', ''hi'') ex_ro
        (ex_env (GotResponse (ex_res ''r1'' ''Other'')))) = Some True \<and>
   map_option (\<lambda>s. dr_pc (ms_drainer s))
     (Option.bind
        (multi_start ex_codec ex_client ''Ping'' ''t'' (''Ping'', ''hi'') ex_ro
           (ex_env (CtxDone DeadlineFired)))
        (run (multi_step ex_codec ex_rt) [Deliver (ex_res ''r1'' ''Other''), TakeResponse])) =
     Some Crashed"
  by (simp only: ex_multi_start Option.bind.simps,
      simp add: RequestSingle_def RequestSingle_exchange_def decode_response_def
        drainer_handle_def ex_codec_def ex_rt_def ex_res_def ex_env_def ex_ro_def ex_client_def
        make_claimChan_def make_resChan_def Let_def)

section \<open>A context that is done\<close>

text \<open>
  Claim C7, as amended. Whatever made the context done (the caller's cancellation or the
  deadline): when the context is done while \<open>RequestSingle\<close> awaits the response, the call
  fails with RequestTimedOut, whose code is DeadlineExceeded; when it is done during
  selection and no claim qualified, the call fails with NoResponse (no claim received) or
  with the Unavailable error that counts the claims. Both have the code Unavailable.
\<close>

theorem RequestSingle_context_done:
  "(anypb_New cd request = Inr v \<longrightarrow> publish_request env = None \<longrightarrow>
    selectServer (selectionOpts ro) (select_events env) = Some (Inr sid) \<longrightarrow>
    publish_claim env = None \<longrightarrow> await env = CtxDone cause \<longrightarrow>
      (\<exists>c' effs. RequestSingle cd rt c rpc topic request ro env =
                   Some (c', effs, fails ErrRequestTimedOut))) \<and>
   (anypb_New cd request = Inr v \<longrightarrow> publish_request env = None \<longrightarrow>
    select_events env = map EvClaim cs @ EvDone cause # rest \<longrightarrow>
    (\<forall>x\<in>set cs. \<not> qualifies (selectionOpts ro) x) \<longrightarrow>
      (\<exists>c' effs. RequestSingle cd rt c rpc topic request ro env =
                   Some (c', effs, fails (if length cs = 0 then ErrNoResponse else ErrNoServers (length cs))))) \<and>
   Code ErrRequestTimedOut = DeadlineExceeded \<and> Code ErrNoResponse = Unavailable \<and>
   Code (ErrNoServers n) = Unavailable"
proof (intro conjI impI)
  assume "anypb_New cd request = Inr v" "publish_request env = None"
    "selectServer (selectionOpts ro) (select_events env) = Some (Inr sid)"
    "publish_claim env = None" "await env = CtxDone cause"
  then show "\<exists>c' effs. RequestSingle cd rt c rpc topic request ro env =
                   Some (c', effs, fails ErrRequestTimedOut)"
    by (simp add: RequestSingle_def RequestSingle_exchange_def Let_def split: prod.splits)
next
  assume a: "anypb_New cd request = Inr v" "publish_request env = None"
    and ev: "select_events env = map EvClaim cs @ EvDone cause # rest"
    and nq: "\<forall>x\<in>set cs. \<not> qualifies (selectionOpts ro) x"
  from nq have "\<forall>x\<in>set cs. \<not> is_candidate (selectionOpts ro) (best (sel_init (selectionOpts ro))) x"
    by (simp add: is_candidate_0)
  from selectLoop_skip[OF this, of "EvDone cause # rest"]
  have "selectServer (selectionOpts ro) (select_events env) =
          Some (Inl (if length cs = 0 then ErrNoResponse else ErrNoServers (length cs)))"
    by (simp add: selectServer_def ev)
  with a show "\<exists>c' effs. RequestSingle cd rt c rpc topic request ro env =
                   Some (c', effs, fails (if length cs = 0 then ErrNoResponse else ErrNoServers (length cs)))"
    by (simp add: RequestSingle_def RequestSingle_exchange_def Let_def split: prod.splits)
qed (simp_all add: ErrRequestTimedOut_def ErrNoResponse_def ErrNoServers_def)

text \<open>
  The caller cancels while the call awaits the response: the call fails with
  RequestTimedOut.
\<close>

theorem RequestSingle_context_done_witness:
  "\<exists>c' effs. RequestSingle ex_codec ex_rt ex_client ''Ping'' ''t'' (''Ping'', ''hi'') ex_ro
      (ex_env (CtxDone CallerCanceled)) = Some (c', effs, fails ErrRequestTimedOut)"
proof -
  have "anypb_New ex_codec (''Ping'', ''hi'') = Inr \<lparr>TypeUrl = ''Ping'', Value = ''hi''\<rparr>"
    "publish_request (ex_env (CtxDone CallerCanceled)) = None"
    "selectServer (selectionOpts ex_ro) (select_events (ex_env (CtxDone CallerCanceled))) = Some (Inr ''s1'')"
    "publish_claim (ex_env (CtxDone CallerCanceled)) = None"
    "await (ex_env (CtxDone CallerCanceled)) = CtxDone CallerCanceled"
    by (simp_all add: ex_codec_def ex_env_def ex_ro_def)
  with RequestSingle_context_done[of ex_codec "(''Ping'', ''hi'')" "\<lparr>TypeUrl = ''Ping'', Value = ''hi''\<rparr>"
      "ex_env (CtxDone CallerCanceled)" ex_ro "''s1''" CallerCanceled ex_rt ex_client "''Ping''" "''t''"]
  show ?thesis by blast
qed

text \<open>
  Claim C7 as it is stated fails: the caller cancels the context before the deadline,
  while the call awaits the response, and the error reported has the code
  DeadlineExceeded, not Canceled.
\<close>

theorem caller_cancel_reported_as_timeout_counterexample:
  "await (ex_env (CtxDone CallerCanceled)) = CtxDone CallerCanceled \<and>
   map_option (\<lambda>r. err (snd (snd r)))
     (RequestSingle ex_codec ex_rt ex_client ''Ping'' ''t'' (''Ping'', ''hi'') ex_ro
        (ex_env (CtxDone CallerCanceled))) =
     Some (Some (NewError DeadlineExceeded ''request timed out''))"
  by (simp add: RequestSingle_def RequestSingle_exchange_def ex_codec_def ex_env_def ex_ro_def
      make_claimChan_def make_resChan_def fails_def ErrRequestTimedOut_def Let_def)

section \<open>The table entry and the stream of a fan-out call\<close>









section \<open>The demultiplexer and a full sink\<close>

lemma only_received_refl [simp]: "only_received c c"
  by (simp add: only_received_def option.rel_refl)

lemma only_received_trans:
  assumes "only_received c c'" and "only_received c' c''"
  shows "only_received c c''"
proof -
  have t: "rel_option (\<lambda>ch ch'. cap ch' = cap ch \<and> suffix (buf ch') (buf ch)) x z"
    if "rel_option (\<lambda>ch ch'. cap ch' = cap ch \<and> suffix (buf ch') (buf ch)) x y"
      and "rel_option (\<lambda>ch ch'. cap ch' = cap ch \<and> suffix (buf ch') (buf ch)) y z"
    for x y z :: "('a chan) option"
    using that by (cases x; cases y; cases z) (auto intro: suffix_order.trans)
  from assms show ?thesis
    unfolding only_received_def by (blast intro: t)
qed

lemma only_received_unregister [simp]: "only_received c (unregister rid c)"
  by (simp add: only_received_def unregister_def option.rel_refl)

lemma only_received_pop_claim:
  "claimChans c a = Some ch \<Longrightarrow> buf ch = x # rest \<Longrightarrow>
   only_received c (c\<lparr>claimChans := (claimChans c)(a \<mapsto> ch\<lparr>buf := rest\<rparr>)\<rparr>)"
  by (auto simp: only_received_def option.rel_refl suffix_Cons)

lemma only_received_pop_res:
  "resChans c a = Some ch \<Longrightarrow> buf ch = x # rest \<Longrightarrow>
   only_received c (c\<lparr>resChans := (resChans c)(a \<mapsto> ch\<lparr>buf := rest\<rparr>)\<rparr>)"
  by (auto simp: only_received_def option.rel_refl suffix_Cons)

lemma blocked_claim_step:
  assumes pc: "dm_pc s = DSendClaim a claim"
    and ch: "claimChans (dm_client s) a = Some ch" and full: "cap ch \<le> length (buf ch)"
    and x: "x \<noteq> RecvClaim a" and st: "demux_step x s = Some s'"
  shows "dm_pc s' = DSendClaim a claim \<and> claimChans (dm_client s') a = Some ch \<and>
         only_received (dm_client s) (dm_client s')"
proof (cases x)
  case (RecvClaim b)
  with x have ba: "b \<noteq> a" by simp
  from st RecvClaim pc ch ba show ?thesis
    by (auto simp: Let_def only_received_pop_claim split: option.splits list.splits if_splits)
next
  case (RecvRes b)
  from st RecvRes pc ch show ?thesis
    by (auto simp: Let_def only_received_pop_res split: option.splits list.splits if_splits)
next
  case (Unregister rid)
  from st Unregister pc ch show ?thesis
    by (auto simp: unregister_def only_received_def option.rel_refl)
qed (use st pc ch full in \<open>auto simp: Let_def split: option.splits if_splits\<close>)

lemma blocked_res_step:
  assumes pc: "dm_pc s = DSendRes a res"
    and ch: "resChans (dm_client s) a = Some ch" and full: "cap ch \<le> length (buf ch)"
    and x: "x \<noteq> RecvRes a" and st: "demux_step x s = Some s'"
  shows "dm_pc s' = DSendRes a res \<and> resChans (dm_client s') a = Some ch \<and>
         only_received (dm_client s) (dm_client s')"
proof (cases x)
  case (RecvClaim b)
  from st RecvClaim pc ch show ?thesis
    by (auto simp: Let_def only_received_pop_claim split: option.splits list.splits if_splits)
next
  case (RecvRes b)
  with x have ba: "b \<noteq> a" by simp
  from st RecvRes pc ch ba show ?thesis
    by (auto simp: Let_def only_received_pop_res split: option.splits list.splits if_splits)
next
  case (Unregister rid)
  from st Unregister pc ch show ?thesis
    by (auto simp: unregister_def only_received_def option.rel_refl)
qed (use st pc ch full in \<open>auto simp: Let_def split: option.splits if_splits\<close>)

lemma blocked_claim_run:
  "run demux_step acts s = Some s' \<Longrightarrow> dm_pc s = DSendClaim a claim \<Longrightarrow>
   claimChans (dm_client s) a = Some ch \<Longrightarrow> cap ch \<le> length (buf ch) \<Longrightarrow>
   \<forall>x\<in>set acts. x \<noteq> RecvClaim a \<Longrightarrow>
   dm_pc s' = DSendClaim a claim \<and> only_received (dm_client s) (dm_client s')"
proof (induction acts arbitrary: s)
  case Nil
  then show ?case by simp
next
  case (Cons x acts)
  from Cons.prems(1) obtain s1 where st: "demux_step x s = Some s1"
    and rn: "run demux_step acts s1 = Some s'"
    by (auto split: option.splits)
  from Cons.prems(5) have x: "x \<noteq> RecvClaim a" and rest: "\<forall>x\<in>set acts. x \<noteq> RecvClaim a" by simp_all
  from blocked_claim_step[OF Cons.prems(2,3,4) x st]
  have s1: "dm_pc s1 = DSendClaim a claim" "claimChans (dm_client s1) a = Some ch"
    "only_received (dm_client s) (dm_client s1)" by simp_all
  from Cons.IH[OF rn s1(1,2) Cons.prems(4) rest] s1(3)
  show ?case by (blast intro: only_received_trans)
qed

lemma blocked_res_run:
  "run demux_step acts s = Some s' \<Longrightarrow> dm_pc s = DSendRes a res \<Longrightarrow>
   resChans (dm_client s) a = Some ch \<Longrightarrow> cap ch \<le> length (buf ch) \<Longrightarrow>
   \<forall>x\<in>set acts. x \<noteq> RecvRes a \<Longrightarrow>
   dm_pc s' = DSendRes a res \<and> only_received (dm_client s) (dm_client s')"
proof (induction acts arbitrary: s)
  case Nil
  then show ?case by simp
next
  case (Cons x acts)
  from Cons.prems(1) obtain s1 where st: "demux_step x s = Some s1"
    and rn: "run demux_step acts s1 = Some s'"
    by (auto split: option.splits)
  from Cons.prems(5) have x: "x \<noteq> RecvRes a" and rest: "\<forall>x\<in>set acts. x \<noteq> RecvRes a" by simp_all
  from blocked_res_step[OF Cons.prems(2,3,4) x st]
  have s1: "dm_pc s1 = DSendRes a res" "resChans (dm_client s1) a = Some ch"
    "only_received (dm_client s) (dm_client s1)" by simp_all
  from Cons.IH[OF rn s1(1,2) Cons.prems(4) rest] s1(3)
  show ?case by (blast intro: only_received_trans)
qed

lemma pending_claim_step:
  assumes "dm_pc s = DSendClaim a claim" and "demux_step x s = Some s1"
  shows "dm_pc s1 = DSendClaim a claim \<or>
         (dm_pc s1 = DSelect \<and>
          ((x = FinishSend \<and>
            (\<exists>ch0. claimChans (dm_client s) a = Some ch0 \<and>
                   claimChans (dm_client s1) a = Some (ch0\<lparr>buf := buf ch0 @ [claim]\<rparr>))) \<or>
           (x = RecvClaim a \<and> (\<exists>ch0. claimChans (dm_client s) a = Some ch0 \<and> buf ch0 = []))))"
  using assms
  by (cases x) (auto simp: Let_def split: option.splits if_splits list.splits)

lemma pending_res_step:
  assumes "dm_pc s = DSendRes b res" and "demux_step x s = Some s1"
  shows "dm_pc s1 = DSendRes b res \<or>
         (dm_pc s1 = DSelect \<and>
          ((x = FinishSend \<and>
            (\<exists>ch0. resChans (dm_client s) b = Some ch0 \<and>
                   resChans (dm_client s1) b = Some (ch0\<lparr>buf := buf ch0 @ [res]\<rparr>))) \<or>
           (x = RecvRes b \<and> (\<exists>ch0. resChans (dm_client s) b = Some ch0 \<and> buf ch0 = []))))"
  using assms
  by (cases x) (auto simp: Let_def split: option.splits if_splits list.splits)

lemma release_claim:
  assumes "dm_pc s = DSendClaim a claim" and "claimChans (dm_client s) a = Some ch"
    and "buf ch = y # rest" and "length (buf ch) = cap ch"
  shows "\<exists>s2. run demux_step [RecvClaim a, FinishSend] s = Some s2 \<and> dm_pc s2 = DSelect \<and>
              claimChans (dm_client s2) a = Some (ch\<lparr>buf := rest @ [claim]\<rparr>)"
  using assms by (auto simp: Let_def)

lemma release_res:
  assumes "dm_pc s = DSendRes b res" and "resChans (dm_client s) b = Some ch"
    and "buf ch = y # rest" and "length (buf ch) = cap ch"
  shows "\<exists>s2. run demux_step [RecvRes b, FinishSend] s = Some s2 \<and> dm_pc s2 = DSelect \<and>
              resChans (dm_client s2) b = Some (ch\<lparr>buf := rest @ [res]\<rparr>)"
  using assms by (auto simp: Let_def)

text \<open>
  Claim C9, as amended. The demultiplexer sends with a blocking send. At its \<open>select\<close>,
  an envelope (a claim, and likewise a response) whose request has no sink is discarded;
  one whose sink has room is put into the sink at once; one whose sink is full leaves the
  demultiplexer waiting at the send. From there, in every run in which nobody receives
  from that sink, the demultiplexer stays at the same send and nothing is put into any
  sink of any request. The waiting envelope is never dropped: whatever step is taken, the
  demultiplexer either still waits with it, or has put it at the end of that sink, or has
  handed it to a receiver of that sink directly. When a receiver takes a value from the
  full sink, the send completes and the envelope is at the end of the sink; when the sink
  has no buffer, the receiver takes the envelope itself.
\<close>

theorem demux_blocking_send:
  "(dm_pc s = DSelect \<longrightarrow> claimRequests (dm_client s) (RequestId claim) = None \<longrightarrow>
      demux_step (SelClaim claim) s = Some s) \<and>
   (dm_pc s = DSelect \<longrightarrow> claimRequests (dm_client s) (RequestId claim) = Some a \<longrightarrow>
    claimChans (dm_client s) a = Some ch \<longrightarrow> length (buf ch) < cap ch \<longrightarrow>
      demux_step (SelClaim claim) s =
        Some (s\<lparr>dm_client := (dm_client s)
                 \<lparr>claimChans := (claimChans (dm_client s))(a \<mapsto> ch\<lparr>buf := buf ch @ [claim]\<rparr>)\<rparr>\<rparr>)) \<and>
   (dm_pc s = DSelect \<longrightarrow> claimRequests (dm_client s) (RequestId claim) = Some a \<longrightarrow>
    claimChans (dm_client s) a = Some ch \<longrightarrow> cap ch \<le> length (buf ch) \<longrightarrow>
      demux_step (SelClaim claim) s = Some (s\<lparr>dm_pc := DSendClaim a claim\<rparr>)) \<and>
   (dm_pc s = DSendClaim a claim \<longrightarrow> claimChans (dm_client s) a = Some ch \<longrightarrow>
    cap ch \<le> length (buf ch) \<longrightarrow> (\<forall>x\<in>set acts. x \<noteq> RecvClaim a) \<longrightarrow>
    run demux_step acts s = Some s' \<longrightarrow>
      dm_pc s' = DSendClaim a claim \<and> only_received (dm_client s) (dm_client s')) \<and>
   (dm_pc s = DSelect \<longrightarrow> responseChannels (dm_client s) (res_RequestId res) = None \<longrightarrow>
      demux_step (SelRes res) s = Some s) \<and>
   (dm_pc s = DSelect \<longrightarrow> responseChannels (dm_client s) (res_RequestId res) = Some b \<longrightarrow>
    resChans (dm_client s) b = Some rch \<longrightarrow> length (buf rch) < cap rch \<longrightarrow>
      demux_step (SelRes res) s =
        Some (s\<lparr>dm_client := (dm_client s)
                 \<lparr>resChans := (resChans (dm_client s))(b \<mapsto> rch\<lparr>buf := buf rch @ [res]\<rparr>)\<rparr>\<rparr>)) \<and>
   (dm_pc s = DSelect \<longrightarrow> responseChannels (dm_client s) (res_RequestId res) = Some b \<longrightarrow>
    resChans (dm_client s) b = Some rch \<longrightarrow> cap rch \<le> length (buf rch) \<longrightarrow>
      demux_step (SelRes res) s = Some (s\<lparr>dm_pc := DSendRes b res\<rparr>)) \<and>
   (dm_pc s = DSendRes b res \<longrightarrow> resChans (dm_client s) b = Some rch \<longrightarrow>
    cap rch \<le> length (buf rch) \<longrightarrow> (\<forall>x\<in>set acts. x \<noteq> RecvRes b) \<longrightarrow>
    run demux_step acts s = Some s' \<longrightarrow>
      dm_pc s' = DSendRes b res \<and> only_received (dm_client s) (dm_client s')) \<and>
   (dm_pc s = DSendClaim a claim \<longrightarrow> demux_step x s = Some s1 \<longrightarrow>
      dm_pc s1 = DSendClaim a claim \<or>
      (dm_pc s1 = DSelect \<and>
       ((x = FinishSend \<and>
         (\<exists>ch0. claimChans (dm_client s) a = Some ch0 \<and>
                claimChans (dm_client s1) a = Some (ch0\<lparr>buf := buf ch0 @ [claim]\<rparr>))) \<or>
        (x = RecvClaim a \<and> (\<exists>ch0. claimChans (dm_client s) a = Some ch0 \<and> buf ch0 = []))))) \<and>
   (dm_pc s = DSendClaim a claim \<longrightarrow> claimChans (dm_client s) a = Some ch \<longrightarrow>
    buf ch = y # rest \<longrightarrow> length (buf ch) = cap ch \<longrightarrow>
      (\<exists>s2. run demux_step [RecvClaim a, FinishSend] s = Some s2 \<and> dm_pc s2 = DSelect \<and>
            claimChans (dm_client s2) a = Some (ch\<lparr>buf := rest @ [claim]\<rparr>))) \<and>
   (dm_pc s = DSendClaim a claim \<longrightarrow> claimChans (dm_client s) a = Some ch \<longrightarrow> buf ch = [] \<longrightarrow>
      demux_step (RecvClaim a) s = Some (s\<lparr>dm_pc := DSelect\<rparr>)) \<and>
   (dm_pc s = DSendRes b res \<longrightarrow> demux_step x s = Some s1 \<longrightarrow>
      dm_pc s1 = DSendRes b res \<or>
      (dm_pc s1 = DSelect \<and>
       ((x = FinishSend \<and>
         (\<exists>ch0. resChans (dm_client s) b = Some ch0 \<and>
                resChans (dm_client s1) b = Some (ch0\<lparr>buf := buf ch0 @ [res]\<rparr>))) \<or>
        (x = RecvRes b \<and> (\<exists>ch0. resChans (dm_client s) b = Some ch0 \<and> buf ch0 = []))))) \<and>
   (dm_pc s = DSendRes b res \<longrightarrow> resChans (dm_client s) b = Some rch \<longrightarrow>
    buf rch = z # rrest \<longrightarrow> length (buf rch) = cap rch \<longrightarrow>
      (\<exists>s2. run demux_step [RecvRes b, FinishSend] s = Some s2 \<and> dm_pc s2 = DSelect \<and>
            resChans (dm_client s2) b = Some (rch\<lparr>buf := rrest @ [res]\<rparr>))) \<and>
   (dm_pc s = DSendRes b res \<longrightarrow> resChans (dm_client s) b = Some rch \<longrightarrow> buf rch = [] \<longrightarrow>
      demux_step (RecvRes b) s = Some (s\<lparr>dm_pc := DSelect\<rparr>))"
proof (intro conjI impI)
  assume "dm_pc s = DSendClaim a claim" "claimChans (dm_client s) a = Some ch"
    "cap ch \<le> length (buf ch)" "\<forall>x\<in>set acts. x \<noteq> RecvClaim a" "run demux_step acts s = Some s'"
  from blocked_claim_run[OF this(5,1,2,3,4)]
  show "dm_pc s' = DSendClaim a claim" "only_received (dm_client s) (dm_client s')" by simp_all
next
  assume "dm_pc s = DSendRes b res" "resChans (dm_client s) b = Some rch"
    "cap rch \<le> length (buf rch)" "\<forall>x\<in>set acts. x \<noteq> RecvRes b" "run demux_step acts s = Some s'"
  from blocked_res_run[OF this(5,1,2,3,4)]
  show "dm_pc s' = DSendRes b res" "only_received (dm_client s) (dm_client s')" by simp_all
next
  assume "dm_pc s = DSendClaim a claim" "demux_step x s = Some s1"
  then show "dm_pc s1 = DSendClaim a claim \<or>
      (dm_pc s1 = DSelect \<and>
       ((x = FinishSend \<and>
         (\<exists>ch0. claimChans (dm_client s) a = Some ch0 \<and>
                claimChans (dm_client s1) a = Some (ch0\<lparr>buf := buf ch0 @ [claim]\<rparr>))) \<or>
        (x = RecvClaim a \<and> (\<exists>ch0. claimChans (dm_client s) a = Some ch0 \<and> buf ch0 = []))))"
    by (rule pending_claim_step)
next
  assume "dm_pc s = DSendRes b res" "demux_step x s = Some s1"
  then show "dm_pc s1 = DSendRes b res \<or>
      (dm_pc s1 = DSelect \<and>
       ((x = FinishSend \<and>
         (\<exists>ch0. resChans (dm_client s) b = Some ch0 \<and>
                resChans (dm_client s1) b = Some (ch0\<lparr>buf := buf ch0 @ [res]\<rparr>))) \<or>
        (x = RecvRes b \<and> (\<exists>ch0. resChans (dm_client s) b = Some ch0 \<and> buf ch0 = []))))"
    by (rule pending_res_step)
next
  assume "dm_pc s = DSendClaim a claim" "claimChans (dm_client s) a = Some ch"
    "buf ch = y # rest" "length (buf ch) = cap ch"
  then show "\<exists>s2. run demux_step [RecvClaim a, FinishSend] s = Some s2 \<and> dm_pc s2 = DSelect \<and>
            claimChans (dm_client s2) a = Some (ch\<lparr>buf := rest @ [claim]\<rparr>)"
    by (rule release_claim)
next
  assume "dm_pc s = DSendRes b res" "resChans (dm_client s) b = Some rch"
    "buf rch = z # rrest" "length (buf rch) = cap rch"
  then show "\<exists>s2. run demux_step [RecvRes b, FinishSend] s = Some s2 \<and> dm_pc s2 = DSelect \<and>
            resChans (dm_client s2) b = Some (rch\<lparr>buf := rrest @ [res]\<rparr>)"
    by (rule release_res)
qed (simp_all add: Let_def)

text \<open>
  The demultiplexer waits at the send into the full claim sink of \<open>r1\<close>: the driver of
  \<open>r1\<close> deleting its entries does not release it; a receive from that sink does, and the
  waiting claim of server \<open>s3\<close> is then in the sink.
\<close>

theorem demux_blocking_send_witness:
  "(\<exists>s'. run demux_step [Unregister ''r1'']
            (ex_dm\<lparr>dm_pc := DSendClaim 0 (ex_claim ''s3'' (1/2))\<rparr>) = Some s' \<and>
         dm_pc s' = DSendClaim 0 (ex_claim ''s3'' (1/2))) \<and>
   (\<exists>s2. run demux_step [RecvClaim 0, FinishSend]
            (ex_dm\<lparr>dm_pc := DSendClaim 0 (ex_claim ''s3'' (1/2))\<rparr>) = Some s2 \<and>
         dm_pc s2 = DSelect \<and>
         claimChans (dm_client s2) 0 = Some \<lparr>cap = 1, buf = [ex_claim ''s3'' (1/2)]\<rparr>)"
proof -
  obtain s' where s': "run demux_step [Unregister ''r1''] (ex_dm\<lparr>dm_pc := DSendClaim 0 (ex_claim ''s3'' (1/2))\<rparr>) = Some s'"
    by simp
  have f: "dm_pc (ex_dm\<lparr>dm_pc := DSendClaim 0 (ex_claim ''s3'' (1/2))\<rparr>) = DSendClaim 0 (ex_claim ''s3'' (1/2))"
    "claimChans (dm_client (ex_dm\<lparr>dm_pc := DSendClaim 0 (ex_claim ''s3'' (1/2))\<rparr>)) 0 =
       Some \<lparr>cap = 1, buf = [ex_claim ''s2'' (1/2)]\<rparr>"
    "cap \<lparr>cap = 1, buf = [ex_claim ''s2'' (1/2)]\<rparr> \<le> length (buf \<lparr>cap = (1::nat), buf = [ex_claim ''s2'' (1/2)]\<rparr>)"
    "\<forall>x\<in>set [Unregister ''r1'']. x \<noteq> RecvClaim 0"
    "buf \<lparr>cap = (1::nat), buf = [ex_claim ''s2'' (1/2)]\<rparr> = ex_claim ''s2'' (1/2) # []"
    "length (buf \<lparr>cap = (1::nat), buf = [ex_claim ''s2'' (1/2)]\<rparr>) = cap \<lparr>cap = (1::nat), buf = [ex_claim ''s2'' (1/2)]\<rparr>"
    by (simp_all add: ex_dm_def)
  note t = demux_blocking_send[where s = "ex_dm\<lparr>dm_pc := DSendClaim 0 (ex_claim ''s3'' (1/2))\<rparr>"
      and a = 0 and ch = "\<lparr>cap = 1, buf = [ex_claim ''s2'' (1/2)]\<rparr>"
      and claim = "ex_claim ''s3'' (1/2)" and acts = "[Unregister ''r1'']" and s' = s'
      and y = "ex_claim ''s2'' (1/2)" and rest = "[]"]
  note t4 = t[THEN conjunct2, THEN conjunct2, THEN conjunct2, THEN conjunct1, rule_format]
  note t10 = t[THEN conjunct2, THEN conjunct2, THEN conjunct2, THEN conjunct2, THEN conjunct2,
      THEN conjunct2, THEN conjunct2, THEN conjunct2, THEN conjunct2, THEN conjunct1, rule_format]
  from t4[OF f(1,2,3) _ s'] have 1: "dm_pc s' = DSendClaim 0 (ex_claim ''s3'' (1/2))" by simp
  from t10[OF f(1,2,5,6)] obtain s2 where
    "run demux_step [RecvClaim 0, FinishSend] (ex_dm\<lparr>dm_pc := DSendClaim 0 (ex_claim ''s3'' (1/2))\<rparr>) = Some s2"
    "dm_pc s2 = DSelect"
    "claimChans (dm_client s2) 0 =
       Some (\<lparr>cap = 1, buf = [ex_claim ''s2'' (1/2)]\<rparr>\<lparr>buf := [] @ [ex_claim ''s3'' (1/2)]\<rparr>)"
    by blast
  with s' 1 show ?thesis by auto
qed

text \<open>
  Claim C9 as it is stated fails. The claim sink of \<open>r1\<close> is full when the claim of server
  \<open>s3\<close> arrives: the demultiplexer waits at the send. The response for the request \<open>r2\<close>,
  whose sink is empty, cannot be routed, and neither that nor the waiting send becomes
  possible when the driver of \<open>r1\<close> deletes its entries (after selection nothing receives
  from the claim sink of \<open>r1\<close>).
\<close>

theorem demux_blocked_counterexample:
  "run demux_step [SelClaim (ex_claim ''s3'' (1/2))] ex_dm =
     Some (ex_dm\<lparr>dm_pc := DSendClaim 0 (ex_claim ''s3'' (1/2))\<rparr>) \<and>
   run demux_step [SelClaim (ex_claim ''s3'' (1/2)), SelRes (ex_res ''r2'' ''Pong'')] ex_dm = None \<and>
   run demux_step [SelClaim (ex_claim ''s3'' (1/2)), Unregister ''r1'', FinishSend] ex_dm = None \<and>
   run demux_step [SelClaim (ex_claim ''s3'' (1/2)), Unregister ''r1'', SelRes (ex_res ''r2'' ''Pong'')] ex_dm = None"
  by (simp add: ex_dm_def ex_client_def ex_claim_def ex_res_def unregister_def Let_def)

section \<open>A request that cannot be encoded\<close>

text \<open>
  Claim C10. When \<open>anypb.New\<close> fails, \<open>RequestSingle\<close> and \<open>RequestMulti\<close> end with the
  MalformedRequest error and the client they leave is the client they found: the two
  maps and the channel objects are untouched, so no entry and no sink was made. Nothing
  was published (the effects are the hook calls only) and \<open>RequestMulti\<close> has started no
  goroutine.
\<close>

theorem encode_failure_no_side_effect:
  assumes "anypb_New cd request = Inl e"
  shows "(\<exists>effs. RequestSingle cd rt c rpc topic request ro env =
                   Some (c, effs, fails (NewError MalformedRequest e)) \<and>
                 filter is_Publish effs = []) \<and>
         (\<exists>effs. RequestMulti cd c rpc topic request ro env =
                   (c, effs, \<lparr>rChan = False, m_err = Some (NewError MalformedRequest e), started = None\<rparr>) \<and>
                 filter is_Publish effs = [])"
  using assms by (simp add: RequestSingle_def RequestMulti_def Let_def fails_def)

text \<open>
  A request the example codec cannot encode.
\<close>

theorem encode_failure_no_side_effect_witness:
  "(\<exists>effs. RequestSingle ex_codec ex_rt ex_client ''Ping'' ''t'' ('''', ''hi'') ex_ro
             (ex_env (CtxDone DeadlineFired)) =
             Some (ex_client, effs, fails (NewError MalformedRequest ''invalid nil source message'')) \<and>
           filter is_Publish effs = []) \<and>
   (\<exists>effs. RequestMulti ex_codec ex_client ''Ping'' ''t'' ('''', ''hi'') ex_ro
             (ex_env (CtxDone DeadlineFired)) =
             (ex_client, effs,
              \<lparr>rChan = False, m_err = Some (NewError MalformedRequest ''invalid nil source message''),
               started = None\<rparr>) \<and>
           filter is_Publish effs = [])"
proof -
  have "anypb_New ex_codec ('''', ''hi'') = Inl ''invalid nil source message''"
    by (simp add: ex_codec_def)
  from encode_failure_no_side_effect[OF this] show ?thesis .
qed

end
